theory Spec2Isabelle
  imports Complex_Main
begin

section \<open>Errors\<close>

text \<open>
  The exceptions that the modelled functions of \<^verbatim>\<open>pytensor/tensor/blas.py\<close> and
  \<^verbatim>\<open>pytensor/tensor/elemwise.py\<close> raise. A function that can raise returns
  \<open>error + 'a\<close>, with \<open>Inl\<close> for the exception.
\<close>

datatype error =
    InconsistencyError
  | ReplacementDidNotRemoveError
  | TypeError
  | ValueError
  | NotImplementedError
  | AssertionError
  | KeyError
  | IndexError

section \<open>The graph model\<close>

text \<open>
  An entry of the list that \<^verbatim>\<open>_gemm_canonicalize\<close> builds is either a 2-tuple
  \<^verbatim>\<open>(scale, term)\<close> or a bare object, on which the unpacking \<^verbatim>\<open>s, M = t\<close> raises
  (the code comment: "sM can be a tuple of 2 elements or an PyTensor variable").
\<close>

datatype ('s, 'm) item = Pair 's 'm | Single 'm

text \<open>
  A tensor type has a dtype (a string such as \<^verbatim>\<open>"float64"\<close>) and a static shape, one
  entry per axis, \<open>None\<close> where the length is not known; \<open>dense\<close> tells a
  \<^verbatim>\<open>DenseTensorType\<close> from the other \<^verbatim>\<open>TensorType\<close>s. \<open>OtherType\<close> stands for the
  types that are neither a \<^verbatim>\<open>TensorType\<close> nor a scalar type; the model reads no
  attribute of such a type, and \<^verbatim>\<open>as_tensor_variable\<close> (which is not part of this code)
  refuses a variable of such a type with a \<^verbatim>\<open>TypeError\<close>. A variable of a scalar type,
  which \<^verbatim>\<open>as_tensor_variable\<close> wraps in a \<^verbatim>\<open>TensorFromScalar\<close> node, is not among the
  variables of the model: the functions below are the code on tensor variables and on
  variables of the refused types.
\<close>

type_synonym dtype = string

datatype ttype =
    TensorType (dense: bool) (dtype: dtype) (shape: "nat option list")
  | OtherType

definition is_TensorType :: "ttype \<Rightarrow> bool" where
  "is_TensorType t = (case t of TensorType _ _ _ \<Rightarrow> True | OtherType \<Rightarrow> False)"

definition is_DenseTensorType :: "ttype \<Rightarrow> bool" where
  "is_DenseTensorType t = (case t of TensorType d _ _ \<Rightarrow> d | OtherType \<Rightarrow> False)"

definition ndim :: "ttype \<Rightarrow> nat" where
  "ndim t = length (shape t)"

definition broadcastable :: "ttype \<Rightarrow> bool list" where
  "broadcastable t = map (\<lambda>s. s = Some 1) (shape t)"

text \<open>
  The operators. \<open>X\<close> is the \<^verbatim>\<open>"x"\<close> of a \<^verbatim>\<open>DimShuffle\<close> order and \<open>Ax j\<close> the input
  axis \<open>j\<close>. An \<^verbatim>\<open>Elemwise\<close> is compared by its scalar operator and its inplace pattern,
  a \<^verbatim>\<open>Gemm\<close> by its \<^verbatim>\<open>inplace\<close> flag (their \<^verbatim>\<open>__props__\<close>).
\<close>

datatype scalar_op = Add | Sub | Neg | Mul | Cast dtype | OtherScalarOp string

datatype dim = X | Ax nat

datatype op =
    Elemwise (scalar_op: scalar_op) (inplace_pattern: "(nat \<times> nat) list")
  | DimShuffle (input_broadcastable: "bool list") (new_order: "dim list")
  | Dot22
  | Gemm (inplace: bool)
  | OtherOp string

definition add :: op where "add = Elemwise Add []"
definition sub :: op where "sub = Elemwise Sub []"
definition neg :: op where "neg = Elemwise Neg []"
definition mul :: op where "mul = Elemwise Mul []"

definition gemm_inplace :: op where "gemm_inplace = Gemm True"
definition gemm_no_inplace :: op where "gemm_no_inplace = Gemm False"

definition is_DimShuffle :: "op \<Rightarrow> bool" where
  "is_DimShuffle p = (case p of DimShuffle _ _ \<Rightarrow> True | _ \<Rightarrow> False)"

text \<open>
  Variables and the \<^verbatim>\<open>Apply\<close> nodes that own them. Every operator of the model has one
  output, so a variable with an owner is that owner's \<^verbatim>\<open>outputs[0]\<close>. Python compares
  variables by object identity: a variable of the graph under rewriting carries the
  identity \<open>Obj n\<close>, distinct objects carrying distinct numbers, and a variable that a
  rewrite builds carries \<open>Fresh\<close>. Equality of the model's values stands for \<^verbatim>\<open>is\<close>; the
  modelled code applies \<^verbatim>\<open>is\<close> to variables of the graph only.
\<close>

datatype ref = Obj nat | Fresh

datatype 'v node = Apply (op: op) (inputs: "'v list")

datatype var =
    Variable ref ttype "var node option"
  | Constant ref ttype real

type_synonym "apply" = "var node"

fun ident :: "var \<Rightarrow> ref" where
  "ident (Variable i t ow) = i"
| "ident (Constant i t x) = i"

fun vtype :: "var \<Rightarrow> ttype" where
  "vtype (Variable i t ow) = t"
| "vtype (Constant i t x) = t"

fun owner :: "var \<Rightarrow> apply option" where
  "owner (Variable i t ow) = ow"
| "owner (Constant i t x) = None"

text \<open>
  A scale is a Python number (\<^verbatim>\<open>_gemm_from_node2\<close> starts with \<^verbatim>\<open>1.0\<close>) or a symbolic
  scalar. The numbers that occur are sums and negations of \<^verbatim>\<open>1.0\<close>, which floating point
  computes exactly; they are modelled as reals.
\<close>

datatype scale = Lit real | SVar var

text \<open>
  The functions of pytensor that the modelled code calls and whose source is not part of
  the modelled files are parameters:
  \<^item> \<open>upcast\<close>: \<^verbatim>\<open>pytensor.scalar.upcast\<close> on two dtypes;
  \<^item> \<open>scalar_out\<close>: the output dtype of \<^verbatim>\<open>scalar_op.make_node\<close> on inputs of the given
    dtypes, which may raise;
  \<^item> \<open>autocast\<close>: the dtype that \<^verbatim>\<open>as_tensor_variable\<close> gives a Python number;
  \<^item> \<open>cast\<close>: \<^verbatim>\<open>pytensor.tensor.basic.cast\<close>;
  \<^item> \<open>view_roots\<close>: \<^verbatim>\<open>pytensor.graph.basic.view_roots\<close>;
  \<^item> \<open>in_same_class\<close>: \<^verbatim>\<open>TensorType.in_same_class\<close>, \<open>in_same_class t u\<close> for
    \<^verbatim>\<open>t.in_same_class(u)\<close>.
\<close>

record env =
  upcast :: "dtype \<Rightarrow> dtype \<Rightarrow> dtype"
  scalar_out :: "scalar_op \<Rightarrow> dtype list \<Rightarrow> error + dtype"
  autocast :: "real \<Rightarrow> dtype"
  cast :: "var \<Rightarrow> dtype \<Rightarrow> error + var"
  view_roots :: "var \<Rightarrow> var list"
  in_same_class :: "ttype \<Rightarrow> ttype \<Rightarrow> bool"

text \<open>Sequencing of calls that may raise.\<close>

definition bind :: "error + 'a \<Rightarrow> ('a \<Rightarrow> error + 'b) \<Rightarrow> error + 'b" where
  "bind m f = (case m of Inl e \<Rightarrow> Inl e | Inr x \<Rightarrow> f x)"

lemma bind_simps [simp]:
  "bind (Inl e) f = Inl e"
  "bind (Inr x) f = f x"
  by (simp_all add: bind_def)

lemma bind_cong [fundef_cong]:
  "m = m' \<Longrightarrow> (\<And>x. m' = Inr x \<Longrightarrow> f x = f' x) \<Longrightarrow> bind m f = bind m' f'"
  by (cases m') (simp_all add: bind_def)

section \<open>Building nodes\<close>

subsection \<open>\<^verbatim>\<open>DimShuffle\<close> (elemwise.py)\<close>

text \<open>
  \<^verbatim>\<open>DimShuffle.__init__\<close>: every axis of the order is an axis of the input and occurs
  once, and only a broadcastable axis may be dropped. Both failures are a
  \<^verbatim>\<open>ValueError\<close>.
\<close>

fun check_order :: "nat \<Rightarrow> dim list \<Rightarrow> bool" where
  "check_order n [] = True"
| "check_order n (X # r) = check_order n r"
| "check_order n (Ax j # r) = (j < n \<and> Ax j \<notin> set r \<and> check_order n r)"

definition DimShuffle_init :: "bool list \<Rightarrow> dim list \<Rightarrow> error + op" where
  "DimShuffle_init ib order =
     (if \<not> check_order (length ib) order then Inl ValueError
      else if \<not> list_all (\<lambda>i. Ax i \<in> set order \<or> ib ! i) [0..<length ib] then Inl ValueError
      else Inr (DimShuffle ib order))"

text \<open>
  \<^verbatim>\<open>DimShuffle.make_node\<close>. \<^verbatim>\<open>as_tensor_variable\<close> returns a tensor variable as it
  is and raises \<^verbatim>\<open>TypeError\<close> on a variable of an \<open>OtherType\<close>.
\<close>

definition DimShuffle_make_node :: "bool list \<Rightarrow> dim list \<Rightarrow> var \<Rightarrow> error + var" where
  "DimShuffle_make_node ib order input =
     (if \<not> is_TensorType (vtype input) then Inl TypeError
      else if broadcastable (vtype input) \<noteq> ib \<and>
              (length (broadcastable (vtype input)) \<noteq> length ib \<or>
               list_ex (\<lambda>(expected, b). expected \<and> \<not> b) (zip ib (broadcastable (vtype input))))
        then Inl TypeError
      else Inr (Variable Fresh
             (TensorType True (dtype (vtype input))
                (map (\<lambda>d. case d of X \<Rightarrow> Some 1 | Ax j \<Rightarrow> shape (vtype input) ! j) order))
             (Some (Apply (DimShuffle ib order) [input]))))"

text \<open>\<^verbatim>\<open>v.dimshuffle(*pattern)\<close>: \<^verbatim>\<open>DimShuffle(list(v.type.broadcastable), pattern)(v)\<close>.\<close>

definition dimshuffle :: "var \<Rightarrow> dim list \<Rightarrow> error + var" where
  "dimshuffle v pattern =
     bind (DimShuffle_init (broadcastable (vtype v)) pattern)
       (\<lambda>_. DimShuffle_make_node (broadcastable (vtype v)) pattern v)"

subsection \<open>\<^verbatim>\<open>Elemwise\<close> (elemwise.py)\<close>

text \<open>\<^verbatim>\<open>get_most_specialized_shape\<close>, on the lengths that the inputs give one axis.\<close>

definition get_most_specialized_shape :: "nat option list \<Rightarrow> error + nat option" where
  "get_most_specialized_shape shapes =
     (case remdups shapes of
        [] \<Rightarrow> Inl IndexError
      | [x] \<Rightarrow> Inr x
      | ds \<Rightarrow>
          if set ds = {None, Some 1} then Inr None
          else (case filter (\<lambda>x. x \<noteq> Some 1 \<and> x \<noteq> None) ds of
                  [x] \<Rightarrow> Inr x
                | _ \<Rightarrow> Inl ValueError))"

text \<open>Running a function that may raise over a list, from left to right.\<close>

fun mapM :: "('a \<Rightarrow> error + 'b) \<Rightarrow> 'a list \<Rightarrow> error + 'b list" where
  "mapM f [] = Inr []"
| "mapM f (x # xs) = bind (f x) (\<lambda>y. bind (mapM f xs) (\<lambda>ys. Inr (y # ys)))"

text \<open>
  \<^verbatim>\<open>Elemwise.make_node\<close> with \<^verbatim>\<open>get_output_info\<close>, for an operator with an empty
  inplace pattern (the checks of the pattern then do nothing): the inputs of lower rank
  are padded on the left by a \<^verbatim>\<open>DimShuffle\<close>, the output shape is the most specialized
  shape of each axis, the output dtype is the scalar operator's.
\<close>

definition pad_input :: "nat \<Rightarrow> var \<Rightarrow> error + var" where
  "pad_input target_length input =
     (let length' = ndim (vtype input); difference = target_length - length' in
      if difference = 0 then Inr input
      else bind (DimShuffle_init (broadcastable (vtype input))
                   (replicate difference X @ map Ax [0..<length']))
             (\<lambda>_. DimShuffle_make_node (broadcastable (vtype input))
                   (replicate difference X @ map Ax [0..<length']) input))"

definition Elemwise_make_node :: "env \<Rightarrow> scalar_op \<Rightarrow> var list \<Rightarrow> error + var" where
  "Elemwise_make_node env sop inps =
     (if list_ex (\<lambda>i. \<not> is_TensorType (vtype i)) inps then Inl TypeError
      else
        bind (scalar_out env sop (map (\<lambda>i. dtype (vtype i)) inps)) (\<lambda>out_dtype.
        if inps = [] then Inl ValueError
        else
          let target_length = Max (set (map (\<lambda>i. ndim (vtype i)) inps)) in
          bind (mapM (pad_input target_length) inps) (\<lambda>args.
          bind (mapM (\<lambda>k. get_most_specialized_shape (map (\<lambda>i. shape (vtype i) ! k) args))
                  [0..<target_length]) (\<lambda>out_shape.
          Inr (Variable Fresh (TensorType True out_dtype out_shape)
                 (Some (Apply (Elemwise sop []) args)))))))"

subsection \<open>The operators of tensor variables\<close>

text \<open>
  \<^verbatim>\<open>-v\<close> is \<^verbatim>\<open>neg(v)\<close>, \<^verbatim>\<open>a * b\<close> is \<^verbatim>\<open>mul(a, b)\<close> and \<^verbatim>\<open>a + b\<close> is \<^verbatim>\<open>add(a, b)\<close>
  (also when the left operand is a Python number, through \<^verbatim>\<open>__rmul__\<close> and
  \<^verbatim>\<open>__radd__\<close>); a Python number becomes a constant of the dtype \<open>autocast\<close> gives it.
\<close>

definition neg_v :: "env \<Rightarrow> var \<Rightarrow> error + var" where
  "neg_v env v = Elemwise_make_node env Neg [v]"

definition mul_v :: "env \<Rightarrow> var list \<Rightarrow> error + var" where
  "mul_v env vs = Elemwise_make_node env Mul vs"

definition add_v :: "env \<Rightarrow> var list \<Rightarrow> error + var" where
  "add_v env vs = Elemwise_make_node env Add vs"

definition as_tensor_variable :: "env \<Rightarrow> scale \<Rightarrow> var" where
  "as_tensor_variable env s =
     (case s of
        Lit x \<Rightarrow> Constant Fresh (TensorType True (autocast env x) []) x
      | SVar v \<Rightarrow> v)"

text \<open>
  \<^verbatim>\<open>scale == x\<close> for a Python number \<open>x\<close>: numbers compare by value; a variable
  compares by identity and is never equal to a number.
\<close>

definition scale_eq :: "scale \<Rightarrow> real \<Rightarrow> bool" where
  "scale_eq s x = (case s of Lit y \<Rightarrow> y = x | SVar _ \<Rightarrow> False)"

text \<open>\<^verbatim>\<open>-scale\<close> and \<^verbatim>\<open>s_i + s_j\<close> on scales.\<close>

definition scale_neg :: "env \<Rightarrow> scale \<Rightarrow> error + scale" where
  "scale_neg env s =
     (case s of
        Lit x \<Rightarrow> Inr (Lit (- x))
      | SVar v \<Rightarrow> bind (neg_v env v) (\<lambda>w. Inr (SVar w)))"

definition scale_add :: "env \<Rightarrow> scale \<Rightarrow> scale \<Rightarrow> error + scale" where
  "scale_add env s t =
     (case (s, t) of
        (Lit x, Lit y) \<Rightarrow> Inr (Lit (x + y))
      | _ \<Rightarrow> bind (add_v env [as_tensor_variable env s, as_tensor_variable env t])
               (\<lambda>w. Inr (SVar w)))"

section \<open>Scaling a term\<close>

text \<open>The helper \<^verbatim>\<open>scaled\<close> of \<^verbatim>\<open>_gemm_canonicalize\<close>, for the scale of that call.\<close>

definition scaled :: "env \<Rightarrow> scale \<Rightarrow> var \<Rightarrow> error + var" where
  "scaled env scale thing =
     (if scale_eq scale 1 then Inr thing
      else if scale_eq scale (- 1) \<and> dtype (vtype thing) \<noteq> ''bool'' then neg_v env thing
      else mul_v env [as_tensor_variable env scale, thing])"

text \<open>
  The helper \<^verbatim>\<open>item_to_var\<close> of \<^verbatim>\<open>_gemm_from_factored_list\<close>: an entry that does not
  unpack is returned as it is.
\<close>

definition item_to_var :: "env \<Rightarrow> (scale, var) item \<Rightarrow> error + var" where
  "item_to_var env t =
     (case t of
        Single v \<Rightarrow> Inr v
      | Pair s M \<Rightarrow>
          if scale_eq s 1 then Inr M
          else if scale_eq s (- 1) then neg_v env M
          else mul_v env [as_tensor_variable env s, M])"

section \<open>Canonicalized term lists and their deduplication\<close>

text \<open>\<^verbatim>\<open>del lst[j]\<close>, for \<open>j\<close> in range.\<close>

definition del :: "'a list \<Rightarrow> nat \<Rightarrow> 'a list" where
  "del lst j = take j lst @ drop (Suc j) lst"

text \<open>
  \<^verbatim>\<open>_factor_canonicalized\<close>, the inner loop \<^verbatim>\<open>while j < len(lst)\<close>. The locals
  \<open>s_i\<close> and \<open>M_i\<close> are carried along; \<open>is_op\<close> is Python's \<^verbatim>\<open>is\<close> on terms and
  \<open>add_op\<close> is Python's \<^verbatim>\<open>+\<close> on scales (on symbolic scales it builds a graph node,
  which may raise).
\<close>

function factor_inner ::
  "('m \<Rightarrow> 'm \<Rightarrow> bool) \<Rightarrow> ('s \<Rightarrow> 's \<Rightarrow> error + 's) \<Rightarrow> ('s, 'm) item list \<Rightarrow> nat \<Rightarrow> 's \<Rightarrow> 'm \<Rightarrow> nat
    \<Rightarrow> error + ('s, 'm) item list" where
  "factor_inner is_op add_op lst i s_i M_i j =
     (if j < length lst then
        (case lst ! j of
           Single _ \<Rightarrow> factor_inner is_op add_op lst i s_i M_i (j + 1)
         | Pair s_j M_j \<Rightarrow>
             if is_op M_i M_j then
               (case add_op s_i s_j of
                  Inl e \<Rightarrow> Inl e
                | Inr s \<Rightarrow> factor_inner is_op add_op (del (lst[i := Pair s M_i]) j) i s M_i j)
             else factor_inner is_op add_op lst i s_i M_i (j + 1))
      else Inr lst)"
  by pat_completeness auto
termination
  by (relation "measure (\<lambda>(is_op, add_op, lst, i, s_i, M_i, j). length lst - j)")
     (auto simp: del_def)

declare factor_inner.simps [simp del]

lemma factor_inner_length:
  "factor_inner is_op add_op lst i s_i M_i j = Inr lst' \<Longrightarrow> length lst' \<le> length lst"
proof (induction is_op add_op lst i s_i M_i j arbitrary: lst' rule: factor_inner.induct)
  case (1 is_op add_op lst i s_i M_i j)
  note unfold = factor_inner.simps [of is_op add_op lst i s_i M_i j]
  show ?case
  proof (cases "j < length lst")
    case False
    with "1.prems" show ?thesis by (simp add: unfold)
  next
    case True
    note j = True
    show ?thesis
    proof (cases "lst ! j")
      case (Single m)
      with j "1.prems" have "factor_inner is_op add_op lst i s_i M_i (j + 1) = Inr lst'"
        by (simp add: unfold)
      from "1.IH"(3) [OF j Single this] show ?thesis .
    next
      case (Pair s_j M_j)
      show ?thesis
      proof (cases "is_op M_i M_j")
        case False
        with j Pair "1.prems" have "factor_inner is_op add_op lst i s_i M_i (j + 1) = Inr lst'"
          by (simp add: unfold)
        from "1.IH"(2) [OF j Pair False this] show ?thesis .
      next
        case True
        with j Pair "1.prems" obtain s where s: "add_op s_i s_j = Inr s"
          and r: "factor_inner is_op add_op (del (lst[i := Pair s M_i]) j) i s M_i j = Inr lst'"
          by (auto simp: unfold split: sum.splits)
        from "1.IH"(1) [OF j Pair True s r]
        have "length lst' \<le> length (del (lst[i := Pair s M_i]) j)" .
        also have "\<dots> \<le> length lst" by (simp add: del_def)
        finally show ?thesis .
      qed
    qed
  qed
qed

text \<open>\<^verbatim>\<open>_factor_canonicalized\<close>, the outer loop \<^verbatim>\<open>while i < len(lst) - 1\<close>.\<close>

function factor_outer ::
  "('m \<Rightarrow> 'm \<Rightarrow> bool) \<Rightarrow> ('s \<Rightarrow> 's \<Rightarrow> error + 's) \<Rightarrow> ('s, 'm) item list \<Rightarrow> nat
    \<Rightarrow> error + ('s, 'm) item list" where
  "factor_outer is_op add_op lst i =
     (if i + 1 < length lst then
        (case lst ! i of
           Single _ \<Rightarrow> factor_outer is_op add_op lst (i + 1)
         | Pair s_i M_i \<Rightarrow>
             (case factor_inner is_op add_op lst i s_i M_i (i + 1) of
                Inl e \<Rightarrow> Inl e
              | Inr lst' \<Rightarrow> factor_outer is_op add_op lst' (i + 1)))
      else Inr lst)"
  by pat_completeness auto
termination
  by (relation "measure (\<lambda>(is_op, add_op, lst, i). length lst - i)")
     (auto dest: factor_inner_length)

declare factor_outer.simps [simp del]

definition factor_canonicalized ::
  "('m \<Rightarrow> 'm \<Rightarrow> bool) \<Rightarrow> ('s \<Rightarrow> 's \<Rightarrow> error + 's) \<Rightarrow> ('s, 'm) item list
    \<Rightarrow> error + ('s, 'm) item list" where
  "factor_canonicalized is_op add_op lst = factor_outer is_op add_op lst 0"

subsection \<open>What the deduplication computes\<close>

text \<open>
  The scales that a list holds for the term \<open>M\<close>, in list order.
\<close>

fun scales_of :: "'m \<Rightarrow> ('s, 'm) item list \<Rightarrow> 's list" where
  "scales_of M [] = []"
| "scales_of M (Pair s N # r) = (if N = M then s # scales_of M r else scales_of M r)"
| "scales_of M (Single x # r) = scales_of M r"

text \<open>
  A structural description of the two loops, used to reason about them, for a \<^verbatim>\<open>+\<close>
  that does not raise: \<open>absorb f s M r\<close> removes from \<open>r\<close> every pair whose term is
  \<open>M\<close> and adds its scale to \<open>s\<close>, from left to right; \<open>dedup\<close> does so for each
  pair in turn.
\<close>

fun absorb :: "('s \<Rightarrow> 's \<Rightarrow> 's) \<Rightarrow> 's \<Rightarrow> 'm \<Rightarrow> ('s, 'm) item list \<Rightarrow> 's \<times> ('s, 'm) item list" where
  "absorb f s M [] = (s, [])"
| "absorb f s M (Pair t N # r) =
     (if M = N then absorb f (f s t) M r
      else (fst (absorb f s M r), Pair t N # snd (absorb f s M r)))"
| "absorb f s M (Single x # r) = (fst (absorb f s M r), Single x # snd (absorb f s M r))"

lemma absorb_length: "length (snd (absorb f s M r)) \<le> length r"
  by (induction f s M r rule: absorb.induct) auto

function dedup :: "('s \<Rightarrow> 's \<Rightarrow> 's) \<Rightarrow> ('s, 'm) item list \<Rightarrow> ('s, 'm) item list" where
  "dedup f [] = []"
| "dedup f (Single x # r) = Single x # dedup f r"
| "dedup f (Pair s M # r) = Pair (fst (absorb f s M r)) M # dedup f (snd (absorb f s M r))"
  by pat_completeness auto
termination
  by (relation "measure (\<lambda>(f, l). length l)") (auto simp: absorb_length le_imp_less_Suc)

section \<open>The fused accumulate operator\<close>

text \<open>\<^verbatim>\<open>dtype.startswith(p)\<close>.\<close>

definition startswith :: "string \<Rightarrow> string \<Rightarrow> bool" where
  "startswith s p = (take (length p) s = p)"

text \<open>
  \<^verbatim>\<open>Gemm.make_node\<close> of \<^verbatim>\<open>Gemm(inplace)\<close>, on the inputs after
  \<^verbatim>\<open>as_tensor_variable\<close> (which returns a tensor variable as it is and raises
  \<^verbatim>\<open>TypeError\<close> on a variable of an \<open>OtherType\<close>). The checks are in the order of the
  source.
\<close>

definition Gemm_make_node :: "env \<Rightarrow> bool \<Rightarrow> var list \<Rightarrow> error + var" where
  "Gemm_make_node env inpl inps =
     (if list_ex (\<lambda>i. \<not> is_TensorType (vtype i)) inps then Inl TypeError
      else if list_ex (\<lambda>i. \<not> is_DenseTensorType (vtype i)) inps then Inl NotImplementedError
      else if length inps \<noteq> 5 then Inl TypeError
      else
        let z = inps ! 0; a = inps ! 1; x = inps ! 2; y = inps ! 3; b = inps ! 4;
            zr = set (view_roots env z);
            xr = set (view_roots env x);
            yr = set (view_roots env y)
        in
        if inpl \<and> zr \<inter> xr \<noteq> {} then Inl InconsistencyError
        else if inpl \<and> zr \<inter> yr \<noteq> {} then Inl InconsistencyError
        else if ndim (vtype z) \<noteq> 2 then Inl TypeError
        else if ndim (vtype a) \<noteq> 0 then Inl TypeError
        else if ndim (vtype x) \<noteq> 2 then Inl TypeError
        else if ndim (vtype y) \<noteq> 2 then Inl TypeError
        else if ndim (vtype b) \<noteq> 0 then Inl TypeError
        else if \<not> (dtype (vtype z) = dtype (vtype a) \<and> dtype (vtype a) = dtype (vtype x) \<and>
                   dtype (vtype x) = dtype (vtype y) \<and> dtype (vtype y) = dtype (vtype b))
          then Inl TypeError
        else if \<not> startswith (dtype (vtype z)) ''float'' \<and>
                \<not> startswith (dtype (vtype z)) ''complex''
          then Inl TypeError
        else Inr (Variable Fresh (vtype z) (Some (Apply (Gemm inpl) inps))))"

text \<open>
  \<^verbatim>\<open>local_inplace_gemm\<close>: \<^verbatim>\<open>gemm_inplace(*node.inputs)\<close> calls \<^verbatim>\<open>Gemm.make_node\<close> of the
  destructive variant; a node of another operator is left alone.
\<close>

definition local_inplace_gemm :: "env \<Rightarrow> apply \<Rightarrow> error + var list option" where
  "local_inplace_gemm env node =
     (if op node = gemm_no_inplace
      then bind (Gemm_make_node env True (inputs node)) (\<lambda>new_out. Inr (Some [new_out]))
      else Inr None)"

section \<open>Running the fused accumulate operator\<close>

text \<open>
  \<^verbatim>\<open>Gemm.make_node\<close> admits a \<open>z\<close>, an \<open>x\<close> and a \<open>y\<close> of rank 2 and an \<open>a\<close> and a \<open>b\<close>
  of rank 0 only, so \<^verbatim>\<open>Gemm.perform\<close> is modelled on arrays of rank 2 and on scalars
  (its branch \<^verbatim>\<open>z.shape == ()\<close> is not taken on such inputs). An array has a shape and
  its rows. The arithmetic of the elements is a parameter of the model (any type with
  \<open>0\<close>, \<open>1\<close>, \<open>+\<close>, \<open>-\<close> and \<open>*\<close>): no law of arithmetic is assumed.
\<close>

record 'a ndarray =
  shape0 :: nat
  shape1 :: nat
  rows :: "'a list list"

text \<open>
  \<^verbatim>\<open>np.dot(x, y)\<close> on two matrices; \<^verbatim>\<open>ValueError\<close> when the inner lengths differ.
\<close>

definition np_dot ::
  "('a::{zero,plus,times}) ndarray \<Rightarrow> 'a ndarray \<Rightarrow> error + 'a ndarray" where
  "np_dot x y =
     (if shape1 x \<noteq> shape0 y then Inl ValueError
      else Inr \<lparr>shape0 = shape0 x, shape1 = shape1 y,
                rows = map (\<lambda>i. map (\<lambda>j.
                         foldl (+) 0 (map (\<lambda>k. rows x ! i ! k * rows y ! k ! j) [0..<shape1 x]))
                       [0..<shape1 y]) [0..<shape0 x]\<rparr>)"

text \<open>
  \<^verbatim>\<open>np.broadcast_to(m, (r, c))\<close>: an axis of length 1 is repeated; any other length must
  be the requested one (\<^verbatim>\<open>ValueError\<close> otherwise).
\<close>

definition broadcast_to :: "'a ndarray \<Rightarrow> nat \<times> nat \<Rightarrow> error + 'a ndarray" where
  "broadcast_to m rc =
     (case rc of (r, c) \<Rightarrow>
        if (shape0 m = r \<or> shape0 m = 1) \<and> (shape1 m = c \<or> shape1 m = 1)
        then Inr \<lparr>shape0 = r, shape1 = c,
                  rows = map (\<lambda>i. map (\<lambda>j.
                           rows m ! (if shape0 m = 1 then 0 else i) ! (if shape1 m = 1 then 0 else j))
                         [0..<c]) [0..<r]\<rparr>
        else Inl ValueError)"

text \<open>\<^verbatim>\<open>-m\<close> and \<^verbatim>\<open>a * m\<close> for a scalar \<open>a\<close>: new arrays.\<close>

definition np_neg :: "('a::uminus) ndarray \<Rightarrow> 'a ndarray" where
  "np_neg m = m\<lparr>rows := map (map uminus) (rows m)\<rparr>"

definition np_scale :: "('a::times) \<Rightarrow> 'a ndarray \<Rightarrow> 'a ndarray" where
  "np_scale a m = m\<lparr>rows := map (map (\<lambda>v. a * v)) (rows m)\<rparr>"

text \<open>
  The updates in place of an array \<open>z\<close>: \<^verbatim>\<open>z[:] = m\<close>, \<^verbatim>\<open>z += m\<close>, \<^verbatim>\<open>z -= m\<close> (the right
  side is broadcast to the shape of \<open>z\<close>) and \<^verbatim>\<open>z *= b\<close> for a scalar \<open>b\<close>. They give
  the new contents of the storage of \<open>z\<close>.
\<close>

definition assign :: "'a ndarray \<Rightarrow> 'a ndarray \<Rightarrow> error + 'a ndarray" where
  "assign z m = bind (broadcast_to m (shape0 z, shape1 z)) (\<lambda>m'. Inr (z\<lparr>rows := rows m'\<rparr>))"

definition iadd :: "('a::plus) ndarray \<Rightarrow> 'a ndarray \<Rightarrow> error + 'a ndarray" where
  "iadd z m =
     bind (broadcast_to m (shape0 z, shape1 z))
       (\<lambda>m'. Inr (z\<lparr>rows := map2 (map2 (+)) (rows z) (rows m')\<rparr>))"

definition isub :: "('a::minus) ndarray \<Rightarrow> 'a ndarray \<Rightarrow> error + 'a ndarray" where
  "isub z m =
     bind (broadcast_to m (shape0 z, shape1 z))
       (\<lambda>m'. Inr (z\<lparr>rows := map2 (map2 (-)) (rows z) (rows m')\<rparr>))"

definition imul :: "('a::times) ndarray \<Rightarrow> 'a \<Rightarrow> 'a ndarray" where
  "imul z b = z\<lparr>rows := map (map (\<lambda>v. v * b)) (rows z)\<rparr>"

text \<open>
  The arrays live in a store; an address is an index of the store, a new array is
  appended. Two inputs alias when they have the same address.
\<close>

type_synonym 'a store = "'a ndarray list"

definition alloc :: "'a store \<Rightarrow> 'a ndarray \<Rightarrow> 'a store \<times> nat" where
  "alloc st m = (st @ [m], length st)"

text \<open>
  \<^verbatim>\<open>Gemm.perform\<close> of \<^verbatim>\<open>Gemm(inplace)\<close>: \<open>z\<close>, \<open>x\<close> and \<open>y\<close> are addresses, \<open>a\<close> and \<open>b\<close>
  the values of the two scalar inputs (the code only reads them). The result is the store
  after the call and the address that \<^verbatim>\<open>zout[0]\<close> holds. The three steps are the copy of
  \<open>z\<close>, the broadcast of \<open>z\<close> and the accumulation.
\<close>

definition perform_copy :: "bool \<Rightarrow> 'a store \<Rightarrow> nat \<Rightarrow> 'a store \<times> nat" where
  "perform_copy inpl st z = (if \<not> inpl then alloc st (st ! z) else (st, z))"

definition perform_broadcast :: "'a store \<Rightarrow> nat \<Rightarrow> nat \<Rightarrow> nat \<Rightarrow> error + 'a store \<times> nat" where
  "perform_broadcast st z x y =
     (if shape0 (st ! x) > shape0 (st ! z) \<or> shape1 (st ! y) > shape1 (st ! z)
      then bind (broadcast_to (st ! z)
                   (max (shape0 (st ! x)) (shape0 (st ! z)), max (shape1 (st ! y)) (shape1 (st ! z))))
             (\<lambda>m. Inr (alloc st m))
      else Inr (st, z))"

definition perform_accumulate ::
  "('a::{zero,one,plus,minus,uminus,times}) store \<Rightarrow> nat \<Rightarrow> 'a \<Rightarrow> nat \<Rightarrow> nat \<Rightarrow> 'a
    \<Rightarrow> error + 'a store" where
  "perform_accumulate st z a x y b =
     (if b = 0 then
        (if a = 1 then
           bind (np_dot (st ! x) (st ! y)) (\<lambda>d.
           bind (assign (st ! z) d) (\<lambda>z'. Inr (st[z := z'])))
         else if a = - 1 then
           bind (np_dot (st ! x) (st ! y)) (\<lambda>d.
           bind (assign (st ! z) (np_neg d)) (\<lambda>z'. Inr (st[z := z'])))
         else
           bind (np_dot (st ! x) (st ! y)) (\<lambda>d.
           bind (assign (st ! z) (np_scale a d)) (\<lambda>z'. Inr (st[z := z']))))
      else if b = 1 then
        (if a = 1 then
           bind (np_dot (st ! x) (st ! y)) (\<lambda>d.
           bind (iadd (st ! z) d) (\<lambda>z'. Inr (st[z := z'])))
         else if a = - 1 then
           bind (np_dot (st ! x) (st ! y)) (\<lambda>d.
           bind (isub (st ! z) d) (\<lambda>z'. Inr (st[z := z'])))
         else
           bind (np_dot (st ! x) (st ! y)) (\<lambda>d.
           bind (iadd (st ! z) (np_scale a d)) (\<lambda>z'. Inr (st[z := z']))))
      else
        (let st1 = st[z := imul (st ! z) b] in
         bind (np_dot (st1 ! x) (st1 ! y)) (\<lambda>d.
         bind (iadd (st1 ! z) (np_scale a d)) (\<lambda>z'. Inr (st1[z := z'])))))"

definition perform ::
  "bool \<Rightarrow> ('a::{zero,one,plus,minus,uminus,times}) store \<Rightarrow> nat \<Rightarrow> 'a \<Rightarrow> nat \<Rightarrow> nat \<Rightarrow> 'a
    \<Rightarrow> error + 'a store \<times> nat" where
  "perform inpl st z a x y b =
     (case perform_copy inpl st z of (st1, z1) \<Rightarrow>
        bind (perform_broadcast st1 z1 x y) (\<lambda>(st2, z2).
        bind (perform_accumulate st2 z2 a x y b) (\<lambda>st3. Inr (st3, z2))))"

text \<open>The array that a call returns, or the exception it raises.\<close>

definition output_value :: "error + 'a store \<times> nat \<Rightarrow> error + 'a ndarray" where
  "output_value r = (case r of Inl e \<Rightarrow> Inl e | Inr (st, out) \<Rightarrow> Inr (st ! out))"

text \<open>
  The array that a call computes from the values of its inputs, when \<open>z\<close> aliases
  neither \<open>x\<close> nor \<open>y\<close>: the accumulation, and the broadcast of \<open>z\<close> before it.
\<close>

definition accumulate_value ::
  "('a::{zero,one,plus,minus,uminus,times}) ndarray \<Rightarrow> 'a \<Rightarrow> 'a ndarray \<Rightarrow> 'a ndarray \<Rightarrow> 'a
    \<Rightarrow> error + 'a ndarray" where
  "accumulate_value zv a xv yv b =
     (if b = 0 then
        (if a = 1 then bind (np_dot xv yv) (\<lambda>d. assign zv d)
         else if a = - 1 then bind (np_dot xv yv) (\<lambda>d. assign zv (np_neg d))
         else bind (np_dot xv yv) (\<lambda>d. assign zv (np_scale a d)))
      else if b = 1 then
        (if a = 1 then bind (np_dot xv yv) (\<lambda>d. iadd zv d)
         else if a = - 1 then bind (np_dot xv yv) (\<lambda>d. isub zv d)
         else bind (np_dot xv yv) (\<lambda>d. iadd zv (np_scale a d)))
      else bind (np_dot xv yv) (\<lambda>d. iadd (imul zv b) (np_scale a d)))"

definition perform_value ::
  "('a::{zero,one,plus,minus,uminus,times}) ndarray \<Rightarrow> 'a \<Rightarrow> 'a ndarray \<Rightarrow> 'a ndarray \<Rightarrow> 'a
    \<Rightarrow> error + 'a ndarray" where
  "perform_value zv a xv yv b =
     bind (if shape0 xv > shape0 zv \<or> shape1 yv > shape1 zv
           then broadcast_to zv (max (shape0 xv) (shape0 zv), max (shape1 yv) (shape1 zv))
           else Inr zv)
       (\<lambda>zv'. accumulate_value zv' a xv yv b)"

section \<open>Canonicalization into signed terms\<close>

text \<open>
  The part of a \<^verbatim>\<open>FunctionGraph\<close> that the modelled code reads: the dictionary
  \<^verbatim>\<open>clients\<close> (a missing key raises \<^verbatim>\<open>KeyError\<close>) and the nodes of the graph. A node is
  named by its output variable \<open>v\<close>: the node is \<open>owner v\<close> and \<open>v\<close> is its
  \<^verbatim>\<open>outputs[0]\<close>.
\<close>

record fgraph =
  clients :: "var \<Rightarrow> (apply \<times> nat) list option"
  apply_nodes :: "var list"

text \<open>
  The loop \<^verbatim>\<open>while i.owner and isinstance(i.owner.op, DimShuffle): i = i.owner.inputs[0]\<close>.
\<close>

fun strip_DimShuffle :: "var \<Rightarrow> var" where
  "strip_DimShuffle (Variable r t (Some (Apply p (i # ins)))) =
     (if is_DimShuffle p then strip_DimShuffle i else Variable r t (Some (Apply p (i # ins))))"
| "strip_DimShuffle v = v"

text \<open>\<^verbatim>\<open>_is_real_matrix\<close> and \<^verbatim>\<open>_is_real_vector\<close>.\<close>

definition float_dtypes :: "dtype list" where
  "float_dtypes = [''float16'', ''float32'', ''float64'']"

definition is_real_matrix :: "var \<Rightarrow> bool" where
  "is_real_matrix res =
     (dtype (vtype res) \<in> set float_dtypes \<and> ndim (vtype res) = 2 \<and>
      shape (vtype res) ! 0 \<noteq> Some 1 \<and> shape (vtype res) ! 1 \<noteq> Some 1)"

definition is_real_vector :: "var \<Rightarrow> bool" where
  "is_real_vector res =
     (dtype (vtype res) \<in> set float_dtypes \<and> ndim (vtype res) = 1 \<and>
      shape (vtype res) ! 0 \<noteq> Some 1)"

text \<open>
  The loop of \<^verbatim>\<open>_gemm_canonicalize\<close> over the inputs of a \<^verbatim>\<open>mul\<close> node, which sorts
  them into scalars, vectors and matrices. The result \<open>None\<close> is the early exit of the
  loop on an input that is none of the three.
\<close>

fun classify ::
  "var list \<Rightarrow> var list \<times> var list \<times> var list \<Rightarrow> error + (var list \<times> var list \<times> var list) option" where
  "classify [] acc = Inr (Some acc)"
| "classify (i # rest) (scalars, vectors, matrices) =
     (if list_all (\<lambda>s. s = Some 1) (shape (vtype i)) then
        (let i' = strip_DimShuffle i in
         if ndim (vtype i') > 0
         then bind (dimshuffle i' []) (\<lambda>d. classify rest (scalars @ [d], vectors, matrices))
         else classify rest (scalars @ [i'], vectors, matrices))
      else if is_real_vector i then classify rest (scalars, vectors @ [i], matrices)
      else if is_real_matrix i then classify rest (scalars, vectors, matrices @ [i])
      else Inr None)"

lemma classify_subset:
  "classify ins (sc, vs, ms) = Inr (Some (s, v, m)) \<Longrightarrow>
     set v \<subseteq> set vs \<union> set ins \<and> set m \<subseteq> set ms \<union> set ins"
proof (induction ins arbitrary: sc vs ms)
  case Nil
  then show ?case by simp
next
  case (Cons i rest)
  from Cons.prems consider
      sc' where "classify rest (sc', vs, ms) = Inr (Some (s, v, m))"
    | "classify rest (sc, vs @ [i], ms) = Inr (Some (s, v, m))"
    | "classify rest (sc, vs, ms @ [i]) = Inr (Some (s, v, m))"
    by (auto simp: Let_def bind_def split: if_splits sum.splits)
  then show ?case
  proof cases
    case 1
    from Cons.IH [OF 1] show ?thesis by auto
  next
    case 2
    from Cons.IH [OF 2] show ?thesis by auto
  next
    case 3
    from Cons.IH [OF 3] show ?thesis by auto
  qed
qed

text \<open>
  The scale that \<^verbatim>\<open>_gemm_canonicalize\<close> passes on below a \<^verbatim>\<open>mul\<close> node, the same three
  cases for a matrix and for a vector: the scale itself when there is no scalar,
  \<^verbatim>\<open>scaled(scalars[0])\<close> for one scalar, and
  \<^verbatim>\<open>mul(scaled(scalars[0]), *scalars[1:])\<close> for more.
\<close>

definition mul_scale :: "env \<Rightarrow> scale \<Rightarrow> var list \<Rightarrow> error + scale" where
  "mul_scale env scale scalars =
     (case scalars of
        [] \<Rightarrow> Inr scale
      | [s] \<Rightarrow> bind (scaled env scale s) (\<lambda>v. Inr (SVar v))
      | s # rest \<Rightarrow>
          bind (scaled env scale s) (\<lambda>v. bind (mul_v env (v # rest)) (\<lambda>w. Inr (SVar w))))"

definition gemm_dtypes :: "dtype list" where
  "gemm_dtypes = [''float16'', ''float32'', ''float64'', ''complex64'', ''complex128'']"

lemma size_input:
  "owner r = Some node \<Longrightarrow> i \<in> set (inputs node) \<Longrightarrow> size i < size r"
  apply (cases r; cases node)
  apply (auto simp: less_Suc_eq_le dest!: size_list_estimation'[where f=size and y="size i"])
  done


text \<open>
  \<^verbatim>\<open>_gemm_canonicalize\<close>. The list \<open>rval\<close>, which the source extends in place, is passed
  along and returned; the value the source returns is not used by its callers.
\<close>

function gemm_canonicalize ::
  "env \<Rightarrow> fgraph \<Rightarrow> var \<Rightarrow> scale \<Rightarrow> (scale, var) item list \<Rightarrow> nat
    \<Rightarrow> error + (scale, var) item list" where
  "gemm_canonicalize env fgraph r scale rval maxclients =
     (if \<not> is_TensorType (vtype r) then Inr rval
      else if ndim (vtype r) \<notin> {1, 2} \<or> dtype (vtype r) \<notin> set gemm_dtypes
        then bind (scaled env scale r) (\<lambda>v. Inr (rval @ [Single v]))
      else
        bind (if maxclients \<noteq> 0
              then (case clients fgraph r of
                      None \<Rightarrow> Inl KeyError
                    | Some cs \<Rightarrow> Inr (length cs > maxclients))
              else Inr False) (\<lambda>too_many.
        if too_many then Inr (rval @ [Pair scale r])
        else
          (case owner r of
             None \<Rightarrow> Inr (rval @ [Pair scale r])
           | Some node \<Rightarrow>
               if op node = sub then
                 (case inputs node of
                    [] \<Rightarrow> Inl IndexError
                  | i0 # rest \<Rightarrow>
                      bind (gemm_canonicalize env fgraph i0 scale rval 1) (\<lambda>rval1.
                      (case rest of
                         [] \<Rightarrow> Inl IndexError
                       | i1 # _ \<Rightarrow>
                           bind (scale_neg env scale) (\<lambda>nscale.
                           gemm_canonicalize env fgraph i1 nscale rval1 1))))
               else if op node = add then
                 foldl (\<lambda>acc i. bind acc (\<lambda>rval'. gemm_canonicalize env fgraph i scale rval' 1))
                   (Inr rval) (inputs node)
               else if op node = neg then
                 (case inputs node of
                    [] \<Rightarrow> Inl IndexError
                  | i0 # _ \<Rightarrow>
                      bind (scale_neg env scale) (\<lambda>nscale.
                      gemm_canonicalize env fgraph i0 nscale rval 1))
               else if op node = mul then
                 bind (classify (inputs node) ([], [], [])) (\<lambda>c.
                 (case c of
                    None \<Rightarrow> Inr (rval @ [Pair scale r])
                  | Some (scalars, vectors, matrices) \<Rightarrow>
                      if length matrices = 1 then
                        (if length vectors \<noteq> 0 then Inl AssertionError
                         else bind (mul_scale env scale scalars) (\<lambda>scale'.
                              gemm_canonicalize env fgraph (matrices ! 0) scale' rval 1))
                      else if length vectors = 1 then
                        (if length matrices \<noteq> 0 then Inl AssertionError
                         else bind (mul_scale env scale scalars) (\<lambda>scale'.
                              gemm_canonicalize env fgraph (vectors ! 0) scale' rval 1))
                      else Inr (rval @ [Pair scale r])))
               else Inr (rval @ [Pair scale r]))))"
  by pat_completeness auto
termination
proof (relation "measure (\<lambda>(env, fgraph, r, scale, rval, maxclients). size r)", goal_cases)
  case 1
  show ?case by simp
next
  case (2 env fgraph r scale rval maxclients too_many node i0 rest)
  then show ?case by (simp add: size_input)
next
  case (3 env fgraph r scale rval maxclients too_many node i0 rest rval1 i1 tl nscale)
  then show ?case by (simp add: size_input)
next
  case (4 env fgraph r scale rval maxclients too_many node acc i rval')
  then show ?case by (simp add: size_input)
next
  case (5 env fgraph r scale rval maxclients too_many node i0 rest nscale)
  then show ?case by (simp add: size_input)
next
  case (6 env fgraph r scale rval maxclients too_many node c sv scalars vm vectors matrices scale')
  then have "matrices ! 0 \<in> set (inputs node)"
    using classify_subset [of "inputs node" "[]" "[]" "[]" scalars vectors matrices]
    by (cases matrices) auto
  with 6 show ?case by (simp add: size_input)
next
  case (7 env fgraph r scale rval maxclients too_many node c sv scalars vm vectors matrices scale')
  then have "vectors ! 0 \<in> set (inputs node)"
    using classify_subset [of "inputs node" "[]" "[]" "[]" scalars vectors matrices]
    by (cases vectors) auto
  with 7 show ?case by (simp add: size_input)
qed

declare gemm_canonicalize.simps [simp del]


text \<open>
  A subexpression that \<^verbatim>\<open>_gemm_canonicalize\<close> looks into: a tensor of rank 1 or 2, of
  a float or complex dtype, with at most \<open>maxclients\<close> clients when \<open>maxclients\<close> is
  not zero.
\<close>

definition eligible :: "fgraph \<Rightarrow> var \<Rightarrow> nat \<Rightarrow> bool" where
  "eligible fgraph r maxclients =
     (is_TensorType (vtype r) \<and> ndim (vtype r) \<in> {1, 2} \<and> dtype (vtype r) \<in> set gemm_dtypes \<and>
      (maxclients = 0 \<or>
       (case clients fgraph r of None \<Rightarrow> False | Some cs \<Rightarrow> length cs \<le> maxclients)))"

section \<open>From the term list to the fused accumulate\<close>

text \<open>\<^verbatim>\<open>gemm_no_inplace(...)\<close>: calling the operator builds its node.\<close>

definition gemm_no_inplace_call :: "env \<Rightarrow> var list \<Rightarrow> error + var" where
  "gemm_no_inplace_call env inps = Gemm_make_node env False inps"

text \<open>
  \<^verbatim>\<open>_beta_L_plus_alpha_M\<close>: the two patterns that it tries on \<open>M\<close>, a \<^verbatim>\<open>_dot22\<close> and a
  \<^verbatim>\<open>DimShuffle\<close> of a \<^verbatim>\<open>Dot22\<close>. \<open>None\<close> stands for falling through both.
\<close>

definition beta_L_plus_alpha_M_match ::
  "env \<Rightarrow> var \<Rightarrow> var \<Rightarrow> var \<Rightarrow> var \<Rightarrow> error + (var list \<times> var) option" where
  "beta_L_plus_alpha_M_match env beta L alpha M =
     (case owner M of
        None \<Rightarrow> Inr None
      | Some Mo \<Rightarrow>
          if op Mo = Dot22 then
            (case inputs Mo of
               [Ml, Mr] \<Rightarrow>
                 bind (gemm_no_inplace_call env [L, alpha, Ml, Mr, beta]) (\<lambda>g. Inr (Some ([g], M)))
             | _ \<Rightarrow> Inl ValueError)
          else if \<not> is_DimShuffle (op Mo) then Inr None
          else
            (case inputs Mo of
               [] \<Rightarrow> Inl IndexError
             | MM # _ \<Rightarrow>
                 (case owner MM of
                    None \<Rightarrow> Inr None
                  | Some MMo \<Rightarrow>
                      if op MMo \<noteq> Dot22 then Inr None
                      else if new_order (op Mo) = [Ax 0] then
                        (case inputs MMo of
                           [MMl, MMr] \<Rightarrow>
                             bind (dimshuffle L [Ax 0, X]) (\<lambda>L'.
                             bind (gemm_no_inplace_call env [L', alpha, MMl, MMr, beta]) (\<lambda>g.
                             bind (dimshuffle g [Ax 0]) (\<lambda>g'. Inr (Some ([g'], MM)))))
                         | _ \<Rightarrow> Inl ValueError)
                      else if new_order (op Mo) = [Ax 1] then
                        (case inputs MMo of
                           [MMl, MMr] \<Rightarrow>
                             bind (dimshuffle L [X, Ax 0]) (\<lambda>L'.
                             bind (gemm_no_inplace_call env [L', alpha, MMl, MMr, beta]) (\<lambda>g.
                             bind (dimshuffle g [Ax 1]) (\<lambda>g'. Inr (Some ([g'], MM)))))
                         | _ \<Rightarrow> Inl ValueError)
                      else if length (new_order (op Mo)) = 0 then
                        (case inputs MMo of
                           [MMl, MMr] \<Rightarrow>
                             bind (dimshuffle L [X, X]) (\<lambda>L'.
                             bind (gemm_no_inplace_call env [L', alpha, MMl, MMr, beta]) (\<lambda>g.
                             bind (dimshuffle g []) (\<lambda>g'. Inr (Some ([g'], MM)))))
                         | _ \<Rightarrow> Inl ValueError)
                      else Inr None)))"

text \<open>
  \<^verbatim>\<open>_beta_L_plus_alpha_M\<close> itself: with \<^verbatim>\<open>recurse_flip\<close> it tries the patterns a second
  time with the two terms exchanged; the result \<open>None\<close> is its \<^verbatim>\<open>(False, False)\<close>.
\<close>

definition beta_L_plus_alpha_M ::
  "env \<Rightarrow> var \<Rightarrow> var \<Rightarrow> var \<Rightarrow> var \<Rightarrow> bool \<Rightarrow> error + (var list \<times> var) option" where
  "beta_L_plus_alpha_M env beta L alpha M recurse_flip =
     bind (beta_L_plus_alpha_M_match env beta L alpha M) (\<lambda>res.
       case res of
         Some found \<Rightarrow> Inr (Some found)
       | None \<Rightarrow>
           if recurse_flip then beta_L_plus_alpha_M_match env alpha M beta L
           else Inr None)"

text \<open>
  \<^verbatim>\<open>_gemm_from_factored_list\<close>. Its first loop keeps the tuples whose scale can be cast
  to the dtype of the term; its nested loops try every pair of entries \<open>i < j\<close>, in
  order; \<open>others lst i j\<close> are the entries at the other positions.
\<close>

fun cast_pairs :: "env \<Rightarrow> (scale, var) item list \<Rightarrow> error + (var \<times> var) list" where
  "cast_pairs env [] = Inr []"
| "cast_pairs env (Single v # lst) = cast_pairs env lst"
| "cast_pairs env (Pair sm0 sm1 # lst) =
     (let sm0' = as_tensor_variable env sm0 in
      if upcast env (dtype (vtype sm0')) (dtype (vtype sm1)) = dtype (vtype sm1)
      then bind (cast env sm0' (dtype (vtype sm1))) (\<lambda>c.
           bind (cast_pairs env lst) (\<lambda>lst2. Inr ((c, sm1) # lst2)))
      else cast_pairs env lst)"

definition others :: "'a list \<Rightarrow> nat \<Rightarrow> nat \<Rightarrow> 'a list" where
  "others lst i j = map (\<lambda>k. lst ! k) (filter (\<lambda>k. k \<noteq> i \<and> k \<noteq> j) [0..<length lst])"

fun try_pairs ::
  "env \<Rightarrow> (var \<times> var) list \<Rightarrow> (nat \<times> nat) list \<Rightarrow> error + (var list \<times> var) option" where
  "try_pairs env lst [] = Inr None"
| "try_pairs env lst ((i, j) # rest) =
     (case (lst ! i, lst ! j) of ((s_i, M_i), (s_j, M_j)) \<Rightarrow>
        if \<not> in_same_class env (vtype M_j) (vtype M_i) then try_pairs env lst rest
        else
          bind (beta_L_plus_alpha_M env s_i M_i s_j M_j True) (\<lambda>res.
            case res of
              None \<Rightarrow> try_pairs env lst rest
            | Some (gemm_of_sM_list, old_dot22) \<Rightarrow>
                if length gemm_of_sM_list \<noteq> 1 then Inl AssertionError
                else
                  bind (mapM (\<lambda>(s, M). item_to_var env (Pair (SVar s) M)) (others lst i j))
                    (\<lambda>vs.
                  let add_inputs = vs @ gemm_of_sM_list in
                  if length add_inputs > 1
                  then bind (add_v env add_inputs) (\<lambda>sum. Inr (Some ([sum], old_dot22)))
                  else Inr (Some (add_inputs, old_dot22)))))"

definition gemm_from_factored_list ::
  "env \<Rightarrow> (scale, var) item list \<Rightarrow> error + (var list \<times> var) option" where
  "gemm_from_factored_list env lst =
     bind (cast_pairs env lst) (\<lambda>lst2.
       try_pairs env lst2
         (concat (map (\<lambda>i. map (\<lambda>j. (i, j)) [i + 1..<length lst2]) [0..<length lst2 - 1])))"

text \<open>
  \<^verbatim>\<open>_gemm_from_node2\<close>, for the node whose output is \<open>out\<close> (the timings it also
  returns are left out).
\<close>

definition gemm_from_node2 ::
  "env \<Rightarrow> fgraph \<Rightarrow> var \<Rightarrow> error + (var list \<times> var) option" where
  "gemm_from_node2 env fgraph out =
     bind (gemm_canonicalize env fgraph out (Lit 1) [] 0) (\<lambda>lst.
       if length lst > 1 then
         bind (factor_canonicalized (=) (scale_add env) lst) (\<lambda>lst'.
         bind (gemm_from_factored_list env lst') (\<lambda>rval.
           case rval of
             None \<Rightarrow> Inr None
           | Some (new_outputs, old_dot22) \<Rightarrow>
               (case new_outputs of
                  [] \<Rightarrow> Inl IndexError
                | v # _ \<Rightarrow>
                    if in_same_class env (vtype v) (vtype out)
                    then Inr (Some (new_outputs, old_dot22))
                    else Inr None)))
       else Inr None)"

section \<open>The driver \<^verbatim>\<open>GemmOptimizer.apply\<close>\<close>

text \<open>
  The counters that \<^verbatim>\<open>apply\<close> keeps and returns, with the flag \<^verbatim>\<open>self.warned\<close>.
  The timers and the profile of the function graph are left out: nothing is decided on
  them.
\<close>

record counters =
  nb_iter :: nat
  nb_replacement :: nat
  nb_replacement_didn_t_remove :: nat
  nb_inconsistency_make :: nat
  nb_inconsistency_replace :: nat
  warned :: bool

text \<open>
  The operations of the function graph that \<^verbatim>\<open>apply\<close> calls are parameters:
  \<^verbatim>\<open>io_toposort\<close> gives the nodes in topological order, and
  \<^verbatim>\<open>replace_all_validate_remove\<close> gives the exception it raised, if any, the graph it
  leaves, and the nodes it imported into the graph, in the order in which the feature
  attached by \<^verbatim>\<open>apply\<close> is told of them. A node is named by its one output variable.
\<close>

record graph_ops =
  io_toposort :: "fgraph \<Rightarrow> var list"
  replace_all_validate_remove ::
    "fgraph \<Rightarrow> (var \<times> var) list \<Rightarrow> var list \<Rightarrow> error option \<times> fgraph \<times> var list"

text \<open>The nodes that a pass tries: \<^verbatim>\<open>Elemwise\<close> of \<^verbatim>\<open>Add\<close>, \<^verbatim>\<open>Sub\<close>, \<^verbatim>\<open>Neg\<close> or \<^verbatim>\<open>Mul\<close>.\<close>

definition is_candidate :: "var \<Rightarrow> bool" where
  "is_candidate node =
     (case owner node of
        None \<Rightarrow> False
      | Some n \<Rightarrow>
          (case op n of
             Elemwise sop _ \<Rightarrow> sop \<in> {Add, Sub, Neg, Mul}
           | _ \<Rightarrow> False))"

text \<open>
  The \<^verbatim>\<open>for\<close> loop of a pass. Its state is the graph, the counters and
  \<^verbatim>\<open>did_something\<close>, with the part of \<^verbatim>\<open>nodelist\<close> not yet visited. \<^verbatim>\<open>on_import\<close>
  appends every imported node other than the current one to the list that the loop is
  going over, so the loop visits these nodes too, and a bound on the number of its steps
  is not known: the result \<^const>\<open>None\<close> stands for a loop that does not end. The
  function \<^verbatim>\<open>build\<close> stands for \<^verbatim>\<open>_gemm_from_node2\<close>; the only exception caught
  around it is \<^verbatim>\<open>InconsistencyError\<close>, and any other is raised by \<^verbatim>\<open>apply\<close>. The
  mark \<^verbatim>\<open>values_eq_approx\<close> put on the tag of the new output is left out.
\<close>

type_synonym pass_state = "fgraph \<times> counters \<times> bool"

partial_function (option) process_nodes ::
  "(fgraph \<Rightarrow> var \<Rightarrow> error + (var list \<times> var) option) \<Rightarrow> graph_ops \<Rightarrow> pass_state \<times> var list
    \<Rightarrow> (error + pass_state) option" where
  "process_nodes build ops st =
     (case st of ((fgraph, c, did_something), nodelist) \<Rightarrow>
       (case nodelist of
          [] \<Rightarrow> Some (Inr (fgraph, c, did_something))
        | node # rest \<Rightarrow>
            if \<not> is_candidate node then process_nodes build ops ((fgraph, c, did_something), rest)
            else if node \<notin> set (apply_nodes fgraph)
              then process_nodes build ops ((fgraph, c, did_something), rest)
            else
              (case build fgraph node of
                 Inl e \<Rightarrow>
                   if e = InconsistencyError
                   then process_nodes build ops
                          ((fgraph, c\<lparr>nb_inconsistency_make := nb_inconsistency_make c + 1\<rparr>,
                            did_something), rest)
                   else Some (Inl e)
               | Inr None \<Rightarrow> process_nodes build ops ((fgraph, c, did_something), rest)
               | Inr (Some (new_outputs, old_dot22)) \<Rightarrow>
                   if length new_outputs \<noteq> 1 then Some (Inl AssertionError)
                   else
                     (case replace_all_validate_remove ops fgraph (zip [node] new_outputs)
                             [old_dot22] of
                        (raised, fgraph', imported) \<Rightarrow>
                          let nodelist' = rest @ filter (\<lambda>new_node. new_node \<noteq> node) imported in
                          (case raised of
                             None \<Rightarrow>
                               process_nodes build ops
                                 ((fgraph', c\<lparr>nb_replacement := nb_replacement c + 1\<rparr>, True),
                                  nodelist')
                           | Some e \<Rightarrow>
                               if e = InconsistencyError
                               then process_nodes build ops
                                      ((fgraph',
                                        c\<lparr>nb_inconsistency_replace := nb_inconsistency_replace c + 1\<rparr>,
                                        did_something), nodelist')
                               else if e = ReplacementDidNotRemoveError
                               then process_nodes build ops
                                      ((fgraph',
                                        c\<lparr>nb_replacement_didn_t_remove :=
                                            nb_replacement_didn_t_remove c + 1,
                                          warned := True\<rparr>,
                                        did_something), nodelist')
                               else Some (Inl e))))))"

text \<open>
  One turn of the \<^verbatim>\<open>while\<close> loop: the nodes in reverse topological order, with
  \<^verbatim>\<open>did_something\<close> reset.
\<close>

definition one_pass ::
  "(fgraph \<Rightarrow> var \<Rightarrow> error + (var list \<times> var) option) \<Rightarrow> graph_ops \<Rightarrow> fgraph \<times> counters
    \<Rightarrow> (error + pass_state) option" where
  "one_pass build ops s =
     (case s of (fgraph, c) \<Rightarrow>
        process_nodes build ops
          ((fgraph, c\<lparr>nb_iter := nb_iter c + 1\<rparr>, False), rev (io_toposort ops fgraph)))"

text \<open>The \<^verbatim>\<open>while did_something\<close> loop.\<close>

partial_function (option) main_loop ::
  "(fgraph \<Rightarrow> var \<Rightarrow> error + (var list \<times> var) option) \<Rightarrow> graph_ops \<Rightarrow> fgraph \<times> counters
    \<Rightarrow> (error + fgraph \<times> counters) option" where
  "main_loop build ops s =
     (case one_pass build ops s of
        None \<Rightarrow> None
      | Some (Inl e) \<Rightarrow> Some (Inl e)
      | Some (Inr (fgraph, c, did_something)) \<Rightarrow>
          if did_something then main_loop build ops (fgraph, c)
          else Some (Inr (fgraph, c)))"

definition zero_counters :: counters where
  "zero_counters = \<lparr>nb_iter = 0, nb_replacement = 0, nb_replacement_didn_t_remove = 0,
     nb_inconsistency_make = 0, nb_inconsistency_replace = 0, warned = False\<rparr>"

definition GemmOptimizer_apply ::
  "env \<Rightarrow> graph_ops \<Rightarrow> fgraph \<Rightarrow> (error + fgraph \<times> counters) option" where
  "GemmOptimizer_apply env ops fgraph =
     main_loop (gemm_from_node2 env) ops
       (fgraph, zero_counters)"

text \<open>
  The state after \<open>n\<close> passes that have each replaced something; \<^const>\<open>None\<close> when
  one of them has not, has raised, or has not ended.
\<close>

fun after_passes ::
  "(fgraph \<Rightarrow> var \<Rightarrow> error + (var list \<times> var) option) \<Rightarrow> graph_ops \<Rightarrow> nat \<Rightarrow> fgraph \<times> counters
    \<Rightarrow> (fgraph \<times> counters) option" where
  "after_passes build ops 0 s = Some s"
| "after_passes build ops (Suc n) s =
     (case one_pass build ops s of
        Some (Inr (fgraph, c, did_something)) \<Rightarrow>
          if did_something then after_passes build ops n (fgraph, c) else None
      | _ \<Rightarrow> None)"

section \<open>Sample inputs\<close>

text \<open>
  One instance of the parameters and a few variables, on which the theorems below are
  run. The instance is an example, not pytensor's own functions.
\<close>

definition sample_rank :: "dtype \<Rightarrow> nat" where
  "sample_rank d =
     (if d = ''bool'' then 0 else if d = ''float16'' then 1 else if d = ''float32'' then 2 else 3)"

definition sample_upcast :: "dtype \<Rightarrow> dtype \<Rightarrow> dtype" where
  "sample_upcast a b =
     (if a = b then a
      else if sample_rank a \<le> sample_rank b \<and> sample_rank b < 3 then b
      else if sample_rank b < sample_rank a \<and> sample_rank a < 3 then a
      else ''float64'')"

definition sample_env :: env where
  "sample_env = \<lparr>
     upcast = sample_upcast,
     scalar_out = (\<lambda>sop ds. case ds of
                      [] \<Rightarrow> Inl TypeError
                    | d # r \<Rightarrow> if sop = Neg \<and> d = ''bool'' then Inl TypeError
                               else Inr (foldl sample_upcast d r)),
     autocast = (\<lambda>x. ''float16''),
     cast = (\<lambda>v d. if dtype (vtype v) = d then Inr v
                     else Inr (Variable Fresh (TensorType True d (shape (vtype v)))
                                 (Some (Apply (Elemwise (Cast d) []) [v])))),
     view_roots = (\<lambda>v. [v]),
     in_same_class = (\<lambda>t u. dtype t = dtype u \<and> broadcastable t = broadcastable u) \<rparr>"

definition dmatrix :: "nat \<Rightarrow> var" where
  "dmatrix n = Variable (Obj n) (TensorType True ''float64'' [None, None]) None"

definition dscalar :: "nat \<Rightarrow> var" where
  "dscalar n = Variable (Obj n) (TensorType True ''float64'' []) None"

definition bool_matrix :: var where
  "bool_matrix = Variable (Obj 0) (TensorType True ''bool'' [None, None]) None"

text \<open>The operator of the node that owns a variable, if any.\<close>

definition owner_op :: "var \<Rightarrow> op option" where
  "owner_op v = map_option op (owner v)"

text \<open>
  The graph of the worked example, \<open>beta * Z + alpha * dot(X, Y)\<close>, as the optimizer
  meets it: the matrix product is a \<^verbatim>\<open>_dot22\<close> node (\<^verbatim>\<open>local_dot_to_dot22\<close> runs
  before), and \<^verbatim>\<open>Elemwise.make_node\<close> has padded the two scalars with a
  \<^verbatim>\<open>DimShuffle\<close>.
\<close>

definition dmat_type :: ttype where
  "dmat_type = TensorType True ''float64'' [None, None]"

definition var_Z :: var where "var_Z = dmatrix 0"
definition var_X :: var where "var_X = dmatrix 1"
definition var_Y :: var where "var_Y = dmatrix 2"
definition var_alpha :: var where "var_alpha = dscalar 3"
definition var_beta :: var where "var_beta = dscalar 4"

definition var_dot :: var where
  "var_dot = Variable (Obj 5) dmat_type (Some (Apply Dot22 [var_X, var_Y]))"

definition var_beta2 :: var where
  "var_beta2 = Variable (Obj 6) (TensorType True ''float64'' [Some 1, Some 1])
     (Some (Apply (DimShuffle [] [X, X]) [var_beta]))"

definition var_alpha2 :: var where
  "var_alpha2 = Variable (Obj 7) (TensorType True ''float64'' [Some 1, Some 1])
     (Some (Apply (DimShuffle [] [X, X]) [var_alpha]))"

definition var_bZ :: var where
  "var_bZ = Variable (Obj 8) dmat_type (Some (Apply mul [var_beta2, var_Z]))"

definition var_aD :: var where
  "var_aD = Variable (Obj 9) dmat_type (Some (Apply mul [var_alpha2, var_dot]))"

definition var_out :: var where
  "var_out = Variable (Obj 10) dmat_type (Some (Apply add [var_bZ, var_aD]))"

definition sample_fgraph :: fgraph where
  "sample_fgraph = \<lparr>
     clients = (\<lambda>v. if v = var_out then Some []
                     else if v \<in> set [var_bZ, var_aD] then Some [(Apply add [var_bZ, var_aD], 0)]
                     else if v \<in> set [var_Z, var_beta2] then Some [(Apply mul [var_beta2, var_Z], 0)]
                     else if v \<in> set [var_dot, var_alpha2] then Some [(Apply mul [var_alpha2, var_dot], 0)]
                     else if v \<in> set [var_X, var_Y] then Some [(Apply Dot22 [var_X, var_Y], 0)]
                     else if v = var_alpha then Some [(Apply (DimShuffle [] [X, X]) [var_alpha], 0)]
                     else if v = var_beta then Some [(Apply (DimShuffle [] [X, X]) [var_beta], 0)]
                     else None),
     apply_nodes = [var_dot, var_beta2, var_alpha2, var_bZ, var_aD, var_out] \<rparr>"


definition var_gemm :: var where
  "var_gemm = Variable Fresh dmat_type
     (Some (Apply gemm_no_inplace [var_Z, var_alpha, var_X, var_Y, var_beta]))"

definition lmatrix :: "nat \<Rightarrow> var" where
  "lmatrix n = Variable (Obj n) (TensorType True ''int64'' [None, None]) None"

text \<open>
  A second graph, \<open>Z + dot(X, Y) + c * W\<close> on matrices of dtype \<^verbatim>\<open>"float32"\<close> with a
  scalar \<open>c\<close> of dtype \<^verbatim>\<open>"float64"\<close>, whose sum has dtype \<^verbatim>\<open>"float64"\<close>; and two small
  graphs with a \<^verbatim>\<open>sub\<close> and a \<^verbatim>\<open>neg\<close> at the root.
\<close>

definition fmat_type :: ttype where
  "fmat_type = TensorType True ''float32'' [None, None]"

definition fmatrix :: "nat \<Rightarrow> var" where
  "fmatrix n = Variable (Obj n) fmat_type None"

definition var_fdot :: var where
  "var_fdot = Variable (Obj 24) fmat_type (Some (Apply Dot22 [fmatrix 21, fmatrix 22]))"

definition var_c2 :: var where
  "var_c2 = Variable (Obj 26) (TensorType True ''float64'' [Some 1, Some 1])
     (Some (Apply (DimShuffle [] [X, X]) [dscalar 25]))"

definition var_cW :: var where
  "var_cW = Variable (Obj 27) dmat_type (Some (Apply mul [var_c2, fmatrix 23]))"

definition var_out2 :: var where
  "var_out2 = Variable (Obj 28) dmat_type (Some (Apply add [fmatrix 20, var_fdot, var_cW]))"

definition sample_fgraph2 :: fgraph where
  "sample_fgraph2 = \<lparr>
     clients = (\<lambda>v. if v = var_out2 then Some []
                     else if v \<in> set [fmatrix 20, var_fdot, var_cW]
                       then Some [(Apply add [fmatrix 20, var_fdot, var_cW], 0)]
                     else if v \<in> set [var_c2, fmatrix 23] then Some [(Apply mul [var_c2, fmatrix 23], 0)]
                     else if v \<in> set [fmatrix 21, fmatrix 22]
                       then Some [(Apply Dot22 [fmatrix 21, fmatrix 22], 0)]
                     else if v = dscalar 25 then Some [(Apply (DimShuffle [] [X, X]) [dscalar 25], 0)]
                     else None),
     apply_nodes = [var_fdot, var_c2, var_cW, var_out2] \<rparr>"

definition one_f32 :: var where
  "one_f32 = Variable Fresh (TensorType True ''float32'' [])
     (Some (Apply (Elemwise (Cast ''float32'') []) [Constant Fresh (TensorType True ''float16'' []) 1]))"

definition var_fgemm :: var where
  "var_fgemm = Variable Fresh fmat_type
     (Some (Apply gemm_no_inplace [fmatrix 20, one_f32, fmatrix 21, fmatrix 22, one_f32]))"


definition var_sub :: var where
  "var_sub = Variable (Obj 11) dmat_type (Some (Apply sub [var_Z, var_dot]))"

definition var_neg :: var where
  "var_neg = Variable (Obj 12) dmat_type (Some (Apply neg [var_Z]))"

text \<open>The matrices of the worked example.\<close>

definition Z_val :: "real ndarray" where
  "Z_val = \<lparr>shape0 = 2, shape1 = 2, rows = [[1, 2], [3, 4]]\<rparr>"

definition X_val :: "real ndarray" where
  "X_val = \<lparr>shape0 = 2, shape1 = 2, rows = [[1, 0], [0, 1]]\<rparr>"

definition Y_val :: "real ndarray" where
  "Y_val = \<lparr>shape0 = 2, shape1 = 2, rows = [[5, 6], [7, 8]]\<rparr>"

text \<open>
  Graph operations for the examples: a replacement that succeeds and leaves the new
  node alone in the graph, and a replacement that raises a given exception and leaves
  the graph as it was. The sample \<^verbatim>\<open>build\<close> raises on one node and proposes the fused
  node for another.
\<close>

definition sample_ops :: graph_ops where
  "sample_ops = \<lparr>
     io_toposort = apply_nodes,
     replace_all_validate_remove =
       (\<lambda>fg pairs remove. (None, fg\<lparr>apply_nodes := map snd pairs\<rparr>, map snd pairs)) \<rparr>"

definition raising_ops :: "error \<Rightarrow> graph_ops" where
  "raising_ops e = \<lparr>
     io_toposort = apply_nodes,
     replace_all_validate_remove = (\<lambda>fg pairs remove. (Some e, fg, [])) \<rparr>"

definition sample_build :: "fgraph \<Rightarrow> var \<Rightarrow> error + (var list \<times> var) option" where
  "sample_build fg node =
     (if node = var_aD then Inl InconsistencyError
      else if node = var_out then Inr (Some ([var_gemm], var_dot))
      else Inr None)"

section \<open>Properties of the deduplication\<close>

lemma absorb_fst: "fst (absorb f s M r) = foldl f s (scales_of M r)"
  by (induction f s M r rule: absorb.induct) auto

lemma absorb_snd_same: "scales_of M (snd (absorb f s M r)) = []"
  by (induction f s M r rule: absorb.induct) auto

lemma absorb_snd_other: "N \<noteq> M \<Longrightarrow> scales_of N (snd (absorb f s M r)) = scales_of N r"
  by (induction f s M r rule: absorb.induct) auto

lemma dedup_scales:
  "scales_of M (dedup f l) = (case scales_of M l of [] \<Rightarrow> [] | s # ss \<Rightarrow> [foldl f s ss])"
  by (induction f l rule: dedup.induct)
     (auto simp: absorb_fst absorb_snd_same absorb_snd_other split: list.splits)

lemma del_props:
  assumes "i < j" "j < length lst"
  shows "length (del (lst[i := v]) j) = length lst - 1"
    and "del (lst[i := v]) j ! i = v"
    and "drop j (del (lst[i := v]) j) = drop (Suc j) lst"
    and "take j (del (lst[i := v]) j) = (take j lst)[i := v]"
  using assms by (auto simp: del_def nth_append min_def take_update_swap)

lemma factor_inner_absorb:
  "i < j \<Longrightarrow> j \<le> length lst \<Longrightarrow> lst ! i = Pair s M \<Longrightarrow>
   factor_inner (=) (\<lambda>a b. Inr (f a b)) lst i s M j =
     Inr ((take j lst)[i := Pair (fst (absorb f s M (drop j lst))) M] @ snd (absorb f s M (drop j lst)))"
proof (induction "length lst - j" arbitrary: lst j s rule: less_induct)
  case less
  note unfold = factor_inner.simps [of "(=)" "\<lambda>a b. Inr (f a b)" lst i s M j]
  show ?case
  proof (cases "j < length lst")
    case False
    with less.prems have "j = length lst" by simp
    moreover from less.prems have "lst[i := Pair s M] = lst"
      by (metis list_update_id)
    ultimately show ?thesis
      by (subst factor_inner.simps) simp
  next
    case True
    then have d: "drop j lst = lst ! j # drop (Suc j) lst"
      by (simp add: Cons_nth_drop_Suc)
    from True have t: "take (Suc j) lst = take j lst @ [lst ! j]"
      by (simp add: take_Suc_conv_app_nth)
    have step: "factor_inner (=) (\<lambda>a b. Inr (f a b)) lst i s M (Suc j) =
       Inr ((take (Suc j) lst)[i := Pair (fst (absorb f s M (drop (Suc j) lst))) M]
            @ snd (absorb f s M (drop (Suc j) lst)))"
      using less.hyps [of lst "Suc j" s] less.prems True by simp
    show ?thesis
    proof (cases "lst ! j")
      case (Single x)
      with True step d t less.prems show ?thesis
        by (subst factor_inner.simps) (simp add: list_update_append)
    next
      case (Pair t' N)
      show ?thesis
      proof (cases "M = N")
        case False
        with True Pair step d t less.prems show ?thesis
          by (subst factor_inner.simps) (simp add: list_update_append)
      next
        case same: True
        let ?l = "del (lst[i := Pair (f s t') M]) j"
        have "factor_inner (=) (\<lambda>a b. Inr (f a b)) ?l i (f s t') M j =
          Inr ((take j ?l)[i := Pair (fst (absorb f (f s t') M (drop j ?l))) M]
            @ snd (absorb f (f s t') M (drop j ?l)))"
          using less.prems True
          by (intro less.hyps) (simp_all add: del_props)
        with True Pair same d less.prems show ?thesis
          by (subst factor_inner.simps) (simp add: del_props)
      qed
    qed
  qed
qed

lemma factor_outer_dedup:
  "factor_outer (=) (\<lambda>a b. Inr (f a b)) lst i = Inr (take i lst @ dedup f (drop i lst))"
proof (induction "length lst - i" arbitrary: lst i rule: less_induct)
  case less
  note unfold = factor_outer.simps [of "(=)" "\<lambda>a b. Inr (f a b)" lst i]
  show ?case
  proof (cases "i + 1 < length lst")
    case False
    then consider "length lst \<le> i" | "length lst = Suc i" by linarith
    then show ?thesis
    proof cases
      case 1
      with False show ?thesis by (simp add: unfold)
    next
      case 2
      then have "drop i lst = [lst ! i]"
        by (metis Cons_nth_drop_Suc drop_all lessI order_refl)
      moreover from 2 have "take i lst @ [lst ! i] = lst"
        by (metis lessI order_refl take_Suc_conv_app_nth take_all)
      ultimately show ?thesis
        using False by (cases "lst ! i") (simp_all add: unfold)
    qed
  next
    case True
    then have d: "drop i lst = lst ! i # drop (Suc i) lst"
      by (simp add: Cons_nth_drop_Suc)
    from True have t: "take (Suc i) lst = take i lst @ [lst ! i]"
      by (simp add: take_Suc_conv_app_nth)
    show ?thesis
    proof (cases "lst ! i")
      case (Single x)
      have "factor_outer (=) (\<lambda>a b. Inr (f a b)) lst (Suc i) =
        Inr (take (Suc i) lst @ dedup f (drop (Suc i) lst))"
        using True by (intro less.hyps) simp
      with True Single d t show ?thesis by (simp add: unfold)
    next
      case (Pair s M)
      let ?a = "absorb f s M (drop (Suc i) lst)"
      let ?l = "(take (Suc i) lst)[i := Pair (fst ?a) M] @ snd ?a"
      have inner: "factor_inner (=) (\<lambda>a b. Inr (f a b)) lst i s M (Suc i) = Inr ?l"
        using True Pair by (intro factor_inner_absorb) simp_all
      have len: "length ?l \<le> length lst"
        using absorb_length [of f s M "drop (Suc i) lst"] True by simp
      have "factor_outer (=) (\<lambda>a b. Inr (f a b)) ?l (Suc i) =
        Inr (take (Suc i) ?l @ dedup f (drop (Suc i) ?l))"
        using True len by (intro less.hyps) simp
      moreover have "take (Suc i) ?l = take i lst @ [Pair (fst ?a) M]"
        using True by (simp add: t list_update_append)
      moreover have "drop (Suc i) ?l = snd ?a"
        using True by simp
      ultimately show ?thesis
        using True Pair d inner by (simp add: unfold)
    qed
  qed
qed

text \<open>
  Claim C2. Deduplication merges the entries of a term: for a \<^verbatim>\<open>+\<close> that does not
  raise, \<^verbatim>\<open>_factor_canonicalized\<close> returns a list that holds, for every term \<open>M\<close>,
  at most one pair, and the scale of that pair is the sum, from left to right, of the
  scales that the input list held for \<open>M\<close> (for two entries \<open>s_i\<close> and \<open>s_j\<close>, that
  is \<open>s_i + s_j\<close>). The list of \<open>3 * M + (-1) * M\<close> becomes the single entry
  \<open>(2, M)\<close>.
\<close>

theorem factor_canonicalized_merges:
  "\<exists>out. factor_canonicalized (=) (\<lambda>a b. Inr (f a b)) lst = Inr out \<and>
     (\<forall>M. scales_of M out = (case scales_of M lst of [] \<Rightarrow> [] | s # ss \<Rightarrow> [foldl f s ss])) \<and>
     factor_canonicalized (=) (\<lambda>a b. Inr (a + b)) [Pair (3::int) N, Pair (- 1) N] = Inr [Pair 2 N]"
  by (simp add: factor_canonicalized_def factor_outer_dedup dedup_scales)

section \<open>Properties of scaling\<close>

lemma mapM_shape_single:
  "mapM (\<lambda>k. get_most_specialized_shape (map (\<lambda>i. shape (vtype i) ! k) [v])) ks
     = Inr (map (\<lambda>k. shape (vtype v) ! k) ks)"
  by (induction ks) (simp_all add: get_most_specialized_shape_def)

lemma neg_v_owner:
  "neg_v env v = Inr w \<Longrightarrow> owner w = Some (Apply neg [v])"
  by (auto simp: neg_v_def Elemwise_make_node_def pad_input_def Let_def neg_def bind_def
        mapM_shape_single
      split: if_splits sum.splits)

text \<open>
  \<^verbatim>\<open>_gemm_from_factored_list\<close> makes every scale a tensor variable before
  \<^verbatim>\<open>item_to_var\<close> sees it, and a variable is equal to no number: on the entries it is
  given there, \<^verbatim>\<open>item_to_var\<close> builds the product, also for a scale that was \<open>1\<close> or
  \<open>-1\<close>.
\<close>

lemma item_to_var_of_variable_scale:
  "item_to_var env (Pair (SVar s) M) = mul_v env [s, M]"
  by (simp add: item_to_var_def scale_eq_def as_tensor_variable_def)

text \<open>
  Claim C8 as stated fails: with the scale \<open>-1\<close> and a term of dtype \<^verbatim>\<open>"bool"\<close>, the
  helper \<^verbatim>\<open>scaled\<close> returns the product of the literal \<open>-1\<close> and the term, not the
  negation of the term.
\<close>

theorem scaled_minus_one_counterexample:
  "\<exists>w. scaled sample_env (Lit (- 1)) bool_matrix = Inr w \<and> owner_op w = Some mul \<and>
       neg_v sample_env bool_matrix \<noteq> Inr w"
  by (simp add: scaled_def scale_eq_def bool_matrix_def mul_v_def neg_v_def Elemwise_make_node_def
      sample_env_def as_tensor_variable_def is_TensorType_def ndim_def pad_input_def Let_def
      DimShuffle_init_def DimShuffle_make_node_def broadcastable_def get_most_specialized_shape_def
      owner_op_def mul_def insert_commute)

text \<open>
  Claim C8, amended. In the helper \<^verbatim>\<open>scaled\<close> of \<^verbatim>\<open>_gemm_canonicalize\<close>, a scale of
  exactly \<open>1\<close> returns the term unchanged, and a scale of exactly \<open>-1\<close> returns the
  negation of the term when the dtype of the term is not \<^verbatim>\<open>"bool"\<close>; for a term of dtype
  \<^verbatim>\<open>"bool"\<close> it returns the product of the literal \<open>-1\<close> and the term. A negation is a
  node of the operator \<^verbatim>\<open>neg\<close>, not a product.
\<close>

theorem scale_one_and_minus_one:
  "scaled env (Lit 1) thing = Inr thing \<and>
   scaled env (Lit (- 1)) thing =
     (if dtype (vtype thing) \<noteq> ''bool'' then neg_v env thing
      else mul_v env [as_tensor_variable env (Lit (- 1)), thing]) \<and>
   (\<forall>v w. neg_v env v = Inr w \<longrightarrow> owner_op w = Some neg \<and> owner_op w \<noteq> Some mul)"
  by (auto simp: scaled_def scale_eq_def owner_op_def neg_def mul_def dest: neg_v_owner)

theorem scale_one_and_minus_one_witness:
  "scaled sample_env (Lit 1) (dmatrix 0) = Inr (dmatrix 0) \<and>
   (\<exists>w. scaled sample_env (Lit (- 1)) (dmatrix 0) = Inr w \<and> owner_op w = Some neg \<and>
        owner_op w \<noteq> Some mul)"
proof -
  have "neg_v sample_env (dmatrix 0) =
      Inr (Variable Fresh (TensorType True ''float64'' [None, None])
             (Some (Apply neg [dmatrix 0])))"
    by (simp add: neg_v_def Elemwise_make_node_def sample_env_def dmatrix_def is_TensorType_def
        ndim_def pad_input_def Let_def get_most_specialized_shape_def neg_def)
  moreover have "dtype (vtype (dmatrix 0)) \<noteq> ''bool''"
    by (simp add: dmatrix_def)
  ultimately show ?thesis
    using scale_one_and_minus_one [of sample_env "dmatrix 0"]
    by (simp add: owner_op_def neg_def mul_def)
qed

section \<open>Properties of \<^verbatim>\<open>Gemm.make_node\<close>\<close>

lemma dense_is_tensor: "is_DenseTensorType t \<Longrightarrow> is_TensorType t"
  by (cases t) (simp_all add: is_DenseTensorType_def is_TensorType_def)

text \<open>
  Claim C3 as stated fails: the non-destructive variant \<^verbatim>\<open>Gemm(inplace=False)\<close> accepts
  inputs in which the accumulate target is the very variable of a matrix-product operand.
\<close>

theorem Gemm_make_node_counterexample:
  "set (view_roots sample_env (dmatrix 0)) \<inter> set (view_roots sample_env (dmatrix 0)) \<noteq> {} \<and>
   Gemm_make_node sample_env False [dmatrix 0, dscalar 1, dmatrix 0, dmatrix 2, dscalar 3] =
     Inr (Variable Fresh (TensorType True ''float64'' [None, None])
            (Some (Apply gemm_no_inplace [dmatrix 0, dscalar 1, dmatrix 0, dmatrix 2, dscalar 3])))"
  by (simp add: Gemm_make_node_def sample_env_def dmatrix_def dscalar_def is_TensorType_def
      is_DenseTensorType_def ndim_def startswith_def gemm_no_inplace_def Let_def)

text \<open>
  Claim C3, amended. \<^verbatim>\<open>Gemm.make_node\<close> of the destructive variant
  \<^verbatim>\<open>Gemm(inplace=True)\<close>, on five dense tensor variables \<open>z, a, x, y, b\<close>, raises
  \<^verbatim>\<open>InconsistencyError\<close> whenever the view roots of \<open>z\<close> meet the view roots of \<open>x\<close> or
  those of \<open>y\<close>. The non-destructive variant makes no such test and never raises
  \<^verbatim>\<open>InconsistencyError\<close>.
\<close>

theorem Gemm_make_node_refuses_alias:
  "(list_all (\<lambda>i. is_DenseTensorType (vtype i)) [z, a, x, y, b] \<and>
      (set (view_roots env z) \<inter> set (view_roots env x) \<noteq> {} \<or>
       set (view_roots env z) \<inter> set (view_roots env y) \<noteq> {})
     \<longrightarrow> Gemm_make_node env True [z, a, x, y, b] = Inl InconsistencyError) \<and>
   Gemm_make_node env False inps \<noteq> Inl InconsistencyError"
  by (simp add: Gemm_make_node_def Let_def dense_is_tensor)

theorem Gemm_make_node_refuses_alias_witness:
  "list_all (\<lambda>i. is_DenseTensorType (vtype i)) [dmatrix 0, dscalar 1, dmatrix 0, dmatrix 2, dscalar 3] \<and>
   set (view_roots sample_env (dmatrix 0)) \<inter> set (view_roots sample_env (dmatrix 0)) \<noteq> {} \<and>
   Gemm_make_node sample_env True [dmatrix 0, dscalar 1, dmatrix 0, dmatrix 2, dscalar 3] =
     Inl InconsistencyError"
proof -
  have d: "list_all (\<lambda>i. is_DenseTensorType (vtype i))
      [dmatrix 0, dscalar 1, dmatrix 0, dmatrix 2, dscalar 3]"
    by (simp add: dmatrix_def dscalar_def is_DenseTensorType_def)
  have r: "set (view_roots sample_env (dmatrix 0)) \<inter> set (view_roots sample_env (dmatrix 0)) \<noteq> {}"
    by (simp add: sample_env_def)
  from d r Gemm_make_node_refuses_alias
    [of "dmatrix 0" "dscalar 1" "dmatrix 0" "dmatrix 2" "dscalar 3" sample_env]
  show ?thesis by blast
qed


section \<open>Properties of \<^verbatim>\<open>Gemm.perform\<close>\<close>

lemma perform_accumulate_frame:
  "perform_accumulate st z a x y b = Inr st' \<Longrightarrow>
     length st' = length st \<and> (\<forall>p. p \<noteq> z \<longrightarrow> st' ! p = st ! p)"
  by (auto simp: perform_accumulate_def Let_def bind_def split: if_splits sum.splits)

lemma perform_broadcast_frame:
  "perform_broadcast st z x y = Inr (st', z') \<Longrightarrow>
     (st' = st \<and> z' = z) \<or> (\<exists>m. st' = st @ [m] \<and> z' = length st)"
  by (auto simp: perform_broadcast_def alloc_def bind_def split: if_splits sum.splits)

text \<open>
  Claim C10. A call of the non-destructive variant leaves every array of the store as
  it was, the input \<open>z\<close> among them: the store after the call starts with the store
  before the call, and the output is an array allocated by the call.
\<close>

theorem perform_no_inplace_frame:
  assumes "perform False st z a x y b = Inr (st', out)"
  shows "length st \<le> out \<and> length st \<le> length st' \<and> take (length st) st' = st"
proof -
  let ?st1 = "st @ [st ! z]"
  from assms obtain st2 z2 where
    b: "perform_broadcast ?st1 (length st) x y = Inr (st2, z2)" and
    a: "perform_accumulate st2 z2 a x y b = Inr st'" and o: "out = z2"
    by (auto simp: perform_def perform_copy_def alloc_def bind_def split: sum.splits)
  from perform_broadcast_frame [OF b]
  have z2: "length st \<le> z2" and l2: "length st \<le> length st2" and t2: "take (length st) st2 = st"
    by auto
  from perform_accumulate_frame [OF a]
  have l: "length st' = length st2" and f: "\<And>p. p \<noteq> z2 \<Longrightarrow> st' ! p = st2 ! p" by auto
  have "take (length st) st' = take (length st) st2"
    using z2 l l2 f by (intro nth_equalityI) auto
  with t2 z2 l l2 o show ?thesis by simp
qed

theorem perform_no_inplace_frame_witness:
  "perform False [Z_val, X_val, Y_val] 0 2 1 2 1 =
     Inr ([Z_val, X_val, Y_val, \<lparr>shape0 = 2, shape1 = 2, rows = [[11, 14], [17, 20]]\<rparr>], 3) \<and>
   take (length [Z_val, X_val, Y_val])
     [Z_val, X_val, Y_val, \<lparr>shape0 = 2, shape1 = 2, rows = [[11, 14], [17, 20]]\<rparr>] =
     [Z_val, X_val, Y_val]"
proof -
  have e: "perform False [Z_val, X_val, Y_val] 0 2 1 2 1 =
     Inr ([Z_val, X_val, Y_val, \<lparr>shape0 = 2, shape1 = 2, rows = [[11, 14], [17, 20]]\<rparr>], 3)"
    by (simp add: perform_def perform_copy_def perform_broadcast_def perform_accumulate_def
        alloc_def Z_val_def X_val_def Y_val_def np_dot_def iadd_def np_scale_def broadcast_to_def
        upt_rec)
  from perform_no_inplace_frame [OF e] e show ?thesis by blast
qed

lemma bind_bind: "bind (bind m f) g = bind m (\<lambda>x. bind (f x) g)"
  by (cases m) simp_all

lemma bind_if: "bind (if c then m else n) f = (if c then bind m f else bind n f)"
  by simp

lemma perform_accumulate_pure:
  assumes "z < length st" "z \<noteq> x" "z \<noteq> y"
  shows "perform_accumulate st z a x y b =
           bind (accumulate_value (st ! z) a (st ! x) (st ! y) b) (\<lambda>z'. Inr (st[z := z']))"
proof -
  have r: "st[z := v] ! x = st ! x" "st[z := v] ! y = st ! y" "st[z := v] ! z = v"
    "st[z := v, z := w] = st[z := w]" for v w
    using assms by simp_all
  show ?thesis
    by (simp only: perform_accumulate_def accumulate_value_def Let_def bind_bind bind_if r)
qed

lemma perform_broadcast_pure:
  "perform_broadcast st z x y =
     (if shape0 (st ! x) > shape0 (st ! z) \<or> shape1 (st ! y) > shape1 (st ! z)
      then bind (broadcast_to (st ! z)
                   (max (shape0 (st ! x)) (shape0 (st ! z)), max (shape1 (st ! y)) (shape1 (st ! z))))
             (\<lambda>m. Inr (st @ [m], length st))
      else Inr (st, z))"
  by (simp add: perform_broadcast_def alloc_def)

lemma perform_output_value:
  assumes "z < length st" "x < length st" "y < length st" "z \<noteq> x" "z \<noteq> y"
  shows "output_value (perform inpl st z a x y b) = perform_value (st ! z) a (st ! x) (st ! y) b"
proof -
  obtain st1 z1 where c: "perform_copy inpl st z = (st1, z1)" by fastforce
  then have 1: "z1 < length st1" "st1 ! z1 = st ! z" "st1 ! x = st ! x" "st1 ! y = st ! y"
    "z1 \<noteq> x" "z1 \<noteq> y" "x < length st1" "y < length st1"
    using assms by (auto simp: perform_copy_def alloc_def nth_append split: if_splits)
  show ?thesis
  proof (cases "shape0 (st ! x) > shape0 (st ! z) \<or> shape1 (st ! y) > shape1 (st ! z)")
    case False
    then have "perform_broadcast st1 z1 x y = Inr (st1, z1)"
      using 1 by (simp add: perform_broadcast_pure)
    then show ?thesis
      using c 1 False
      by (cases "accumulate_value (st ! z) a (st ! x) (st ! y) b")
         (simp_all add: perform_def perform_accumulate_pure perform_value_def output_value_def)
  next
    case True
    show ?thesis
    proof (cases "broadcast_to (st ! z)
        (max (shape0 (st ! x)) (shape0 (st ! z)), max (shape1 (st ! y)) (shape1 (st ! z)))")
      case (Inl e)
      then have "perform_broadcast st1 z1 x y = Inl e"
        using 1 True by (simp add: perform_broadcast_pure)
      then show ?thesis
        using c True Inl by (simp add: perform_def perform_value_def output_value_def)
    next
      case (Inr m)
      then have "perform_broadcast st1 z1 x y = Inr (st1 @ [m], length st1)"
        using 1 True by (simp add: perform_broadcast_pure)
      moreover have "perform_accumulate (st1 @ [m]) (length st1) a x y b =
          bind (accumulate_value m a (st ! x) (st ! y) b) (\<lambda>z'. Inr ((st1 @ [m])[length st1 := z']))"
        using 1 by (subst perform_accumulate_pure) (auto simp: nth_append)
      ultimately show ?thesis
        using c True Inr
        by (cases "accumulate_value m a (st ! x) (st ! y) b")
           (simp_all add: perform_def perform_value_def output_value_def)
    qed
  qed
qed


lemma Gemm_make_node_owner:
  "Gemm_make_node env inpl inps = Inr v \<Longrightarrow>
     owner v = Some (Apply (Gemm inpl) inps) \<and> vtype v = vtype (inps ! 0)"
  by (auto simp: Gemm_make_node_def Let_def split: if_splits)

text \<open>
  Claim C9. When \<^verbatim>\<open>local_inplace_gemm\<close> returns a replacement, the node was a
  \<^verbatim>\<open>gemm_no_inplace\<close> node and the replacement is the output of a \<^verbatim>\<open>gemm_inplace\<close> node
  on the same input list. On valid inputs, that is when the array \<open>z\<close> aliases neither
  \<open>x\<close> nor \<open>y\<close> (what \<^verbatim>\<open>Gemm.make_node\<close> of the destructive variant checks on the
  graph), the two variants return the same array, or raise the same exception.
\<close>

theorem inplace_same_semantics:
  "(local_inplace_gemm env node = Inr (Some new_out) \<longrightarrow>
      op node = gemm_no_inplace \<and>
      (\<exists>v. new_out = [v] \<and> owner v = Some (Apply gemm_inplace (inputs node)))) \<and>
   (z < length st \<and> x < length st \<and> y < length st \<and> z \<noteq> x \<and> z \<noteq> y \<longrightarrow>
      output_value (perform True st z a x y b) = output_value (perform False st z a x y b))"
  by (auto simp: local_inplace_gemm_def perform_output_value gemm_inplace_def bind_def
      dest: Gemm_make_node_owner split: if_splits sum.splits)

theorem inplace_same_semantics_witness:
  "local_inplace_gemm sample_env
      (Apply gemm_no_inplace [dmatrix 0, dscalar 1, dmatrix 2, dmatrix 3, dscalar 4]) =
     Inr (Some [Variable Fresh (TensorType True ''float64'' [None, None])
       (Some (Apply gemm_inplace [dmatrix 0, dscalar 1, dmatrix 2, dmatrix 3, dscalar 4]))]) \<and>
   output_value (perform True [Z_val, X_val, Y_val] 0 2 1 2 1) =
     Inr \<lparr>shape0 = 2, shape1 = 2, rows = [[11, 14], [17, 20]]\<rparr> \<and>
   output_value (perform False [Z_val, X_val, Y_val] 0 2 1 2 1) =
     Inr \<lparr>shape0 = 2, shape1 = 2, rows = [[11, 14], [17, 20]]\<rparr>"
proof -
  have n: "local_inplace_gemm sample_env
      (Apply gemm_no_inplace [dmatrix 0, dscalar 1, dmatrix 2, dmatrix 3, dscalar 4]) =
     Inr (Some [Variable Fresh (TensorType True ''float64'' [None, None])
       (Some (Apply gemm_inplace [dmatrix 0, dscalar 1, dmatrix 2, dmatrix 3, dscalar 4]))])"
    by (simp add: local_inplace_gemm_def Gemm_make_node_def sample_env_def dmatrix_def
        dscalar_def is_TensorType_def is_DenseTensorType_def ndim_def startswith_def
        gemm_inplace_def gemm_no_inplace_def Let_def)
  have e: "output_value (perform False [Z_val, X_val, Y_val] 0 2 1 2 1) =
     Inr \<lparr>shape0 = 2, shape1 = 2, rows = [[11, 14], [17, 20]]\<rparr>"
    by (simp add: output_value_def perform_def perform_copy_def perform_broadcast_def
        perform_accumulate_def alloc_def Z_val_def X_val_def Y_val_def np_dot_def iadd_def
        np_scale_def broadcast_to_def upt_rec)
  have "output_value (perform True [Z_val, X_val, Y_val] 0 2 1 2 1) =
      output_value (perform False [Z_val, X_val, Y_val] 0 2 1 2 1)"
    using inplace_same_semantics [where z = 0 and x = 1 and y = 2 and a = 2 and b = 1
        and st = "[Z_val, X_val, Y_val]"]
    by simp
  with n e show ?thesis by simp
qed

section \<open>Properties of the canonicalization\<close>

lemmas sample_vars =
  var_Z_def var_X_def var_Y_def var_alpha_def var_beta_def var_dot_def var_beta2_def
  var_alpha2_def var_bZ_def var_aD_def var_out_def dmat_type_def dmatrix_def dscalar_def

lemma canon_sample:
  "gemm_canonicalize env sample_fgraph var_out (Lit 1) [] 0 =
     Inr [Pair (SVar var_beta) var_Z, Pair (SVar var_alpha) var_dot]"
  by (simp add: gemm_canonicalize.simps sample_vars sample_fgraph_def is_TensorType_def ndim_def
      gemm_dtypes_def add_def sub_def neg_def mul_def is_DimShuffle_def is_real_matrix_def
      is_real_vector_def float_dtypes_def mul_scale_def scaled_def scale_eq_def Let_def)


lemma factor_sample:
  "factor_canonicalized (=) add_op [Pair (SVar var_beta) var_Z, Pair (SVar var_alpha) var_dot] =
     Inr [Pair (SVar var_beta) var_Z, Pair (SVar var_alpha) var_dot]"
  by (simp add: factor_canonicalized_def factor_outer.simps factor_inner.simps sample_vars)

lemma from_node2_sample:
  assumes "upcast env ''float64'' ''float64'' = ''float64''"
    and "cast env var_alpha ''float64'' = Inr var_alpha"
    and "cast env var_beta ''float64'' = Inr var_beta"
    and "in_same_class env dmat_type dmat_type"
  shows "gemm_from_node2 env sample_fgraph var_out = Inr (Some ([var_gemm], var_dot))"
proof -
  have t: "dtype (vtype var_alpha) = ''float64''" "dtype (vtype var_beta) = ''float64''"
    "dtype dmat_type = ''float64''"
    "vtype var_Z = dmat_type" "vtype var_dot = dmat_type" "vtype var_out = dmat_type"
    "vtype var_gemm = dmat_type"
    by (simp_all add: var_Z_def var_alpha_def var_beta_def var_dot_def var_out_def dmat_type_def
        dmatrix_def dscalar_def var_gemm_def)
  have c: "cast_pairs env [Pair (SVar var_beta) var_Z, Pair (SVar var_alpha) var_dot] =
      Inr [(var_beta, var_Z), (var_alpha, var_dot)]"
    using assms by (simp add: as_tensor_variable_def t)
  have g: "gemm_no_inplace_call env [var_Z, var_alpha, var_X, var_Y, var_beta] = Inr var_gemm"
    by (simp add: gemm_no_inplace_call_def Gemm_make_node_def sample_vars var_gemm_def
        is_TensorType_def is_DenseTensorType_def ndim_def startswith_def gemm_no_inplace_def
        Let_def)
  have m: "beta_L_plus_alpha_M env var_beta var_Z var_alpha var_dot True =
      Inr (Some ([var_gemm], var_dot))"
    unfolding beta_L_plus_alpha_M_def beta_L_plus_alpha_M_match_def
    using g by (simp add: var_dot_def)
  have p: "try_pairs env [(var_beta, var_Z), (var_alpha, var_dot)] [(0, 1)] =
      Inr (Some ([var_gemm], var_dot))"
    using assms(4) m by (simp add: t others_def upt_rec)
  have f: "gemm_from_factored_list env [Pair (SVar var_beta) var_Z, Pair (SVar var_alpha) var_dot] =
      Inr (Some ([var_gemm], var_dot))"
    using c p by (simp add: gemm_from_factored_list_def upt_rec)
  show ?thesis
    using assms(4) f by (simp add: gemm_from_node2_def canon_sample factor_sample t)
qed


text \<open>
  Claim C4 as stated fails: a subexpression that is not float or complex typed (here a
  matrix of dtype \<^verbatim>\<open>"int64"\<close>) is appended as the bare variable \<^verbatim>\<open>scaled(r)\<close>, not as
  a pair of a scale and a term.
\<close>

theorem gemm_canonicalize_counterexample:
  "dtype (vtype (lmatrix 0)) \<notin> set gemm_dtypes \<and>
   gemm_canonicalize sample_env sample_fgraph (lmatrix 0) (Lit 1) [] 1 = Inr [Single (lmatrix 0)] \<and>
   gemm_canonicalize sample_env sample_fgraph (lmatrix 0) (Lit 1) [] 1 \<noteq> Inr [Pair (Lit 1) (lmatrix 0)]"
  by (simp add: gemm_canonicalize.simps lmatrix_def is_TensorType_def ndim_def gemm_dtypes_def
      scaled_def scale_eq_def)

text \<open>
  Claim C4, amended. For a subexpression \<open>r\<close> that is eligible (a tensor of rank 1 or 2,
  of a float or complex dtype, with no more clients than the maximum when a maximum is
  given), \<^verbatim>\<open>_gemm_canonicalize\<close> follows these rules: \<^verbatim>\<open>sub(a, b)\<close> recurses on \<open>a\<close>
  with the scale and then on \<open>b\<close> with the negated scale; \<^verbatim>\<open>add\<close> recurses on every
  input, from left to right, with the same scale; \<^verbatim>\<open>neg(a)\<close> recurses on \<open>a\<close> with the
  negated scale; a \<^verbatim>\<open>mul\<close> whose inputs are scalars and exactly one matrix or exactly one
  vector folds the scalars into the scale and recurses once on that matrix or vector.
  A subexpression with more clients than the maximum, or one that matches no rule, is
  appended as the pair of the scale and the term. A tensor that is not of rank 1 or 2 or
  not of a float or complex dtype is appended as the bare variable \<^verbatim>\<open>scaled(r)\<close>, and for
  a variable that is not a tensor nothing is appended.
\<close>

theorem gemm_canonicalize_rules:
  "(eligible fgraph r maxclients \<and> owner r = Some (Apply sub [a, b]) \<longrightarrow>
      gemm_canonicalize env fgraph r scale rval maxclients =
        bind (gemm_canonicalize env fgraph a scale rval 1) (\<lambda>rval1.
        bind (scale_neg env scale) (\<lambda>nscale. gemm_canonicalize env fgraph b nscale rval1 1))) \<and>
   (eligible fgraph r maxclients \<and> owner r = Some (Apply add ins) \<longrightarrow>
      gemm_canonicalize env fgraph r scale rval maxclients =
        foldl (\<lambda>acc i. bind acc (\<lambda>rval'. gemm_canonicalize env fgraph i scale rval' 1))
          (Inr rval) ins) \<and>
   (eligible fgraph r maxclients \<and> owner r = Some (Apply neg [a]) \<longrightarrow>
      gemm_canonicalize env fgraph r scale rval maxclients =
        bind (scale_neg env scale) (\<lambda>nscale. gemm_canonicalize env fgraph a nscale rval 1)) \<and>
   (eligible fgraph r maxclients \<and> owner r = Some (Apply mul ins) \<and>
    classify ins ([], [], []) = Inr (Some (scalars, [], [m])) \<longrightarrow>
      gemm_canonicalize env fgraph r scale rval maxclients =
        bind (mul_scale env scale scalars) (\<lambda>scale'. gemm_canonicalize env fgraph m scale' rval 1)) \<and>
   (eligible fgraph r maxclients \<and> owner r = Some (Apply mul ins) \<and>
    classify ins ([], [], []) = Inr (Some (scalars, [v], [])) \<longrightarrow>
      gemm_canonicalize env fgraph r scale rval maxclients =
        bind (mul_scale env scale scalars) (\<lambda>scale'. gemm_canonicalize env fgraph v scale' rval 1)) \<and>
   (is_TensorType (vtype r) \<and> ndim (vtype r) \<in> {1, 2} \<and> dtype (vtype r) \<in> set gemm_dtypes \<and>
    maxclients \<noteq> 0 \<and> clients fgraph r = Some cs \<and> maxclients < length cs \<longrightarrow>
      gemm_canonicalize env fgraph r scale rval maxclients = Inr (rval @ [Pair scale r])) \<and>
   (eligible fgraph r maxclients \<and>
    (owner r = None \<or> (\<exists>node. owner r = Some node \<and> op node \<notin> {sub, add, neg, mul})) \<longrightarrow>
      gemm_canonicalize env fgraph r scale rval maxclients = Inr (rval @ [Pair scale r])) \<and>
   (eligible fgraph r maxclients \<and> owner r = Some (Apply mul ins) \<and>
    (classify ins ([], [], []) = Inr None \<or>
     (\<exists>scalars vectors matrices.
        classify ins ([], [], []) = Inr (Some (scalars, vectors, matrices)) \<and>
        length matrices \<noteq> 1 \<and> length vectors \<noteq> 1)) \<longrightarrow>
      gemm_canonicalize env fgraph r scale rval maxclients = Inr (rval @ [Pair scale r])) \<and>
   (is_TensorType (vtype r) \<and> (ndim (vtype r) \<notin> {1, 2} \<or> dtype (vtype r) \<notin> set gemm_dtypes) \<longrightarrow>
      gemm_canonicalize env fgraph r scale rval maxclients =
        bind (scaled env scale r) (\<lambda>v. Inr (rval @ [Single v]))) \<and>
   (\<not> is_TensorType (vtype r) \<longrightarrow>
      gemm_canonicalize env fgraph r scale rval maxclients = Inr rval)"
  by (intro conjI;
      subst gemm_canonicalize.simps,
      auto simp: eligible_def add_def sub_def neg_def mul_def split: option.splits)

lemmas canon_eval =
  sample_fgraph_def is_TensorType_def ndim_def gemm_dtypes_def add_def sub_def neg_def mul_def
  is_DimShuffle_def is_real_matrix_def is_real_vector_def float_dtypes_def mul_scale_def
  scaled_def scale_eq_def scale_neg_def Let_def eligible_def

theorem gemm_canonicalize_rules_witness:
  "gemm_canonicalize sample_env sample_fgraph var_out (Lit 1) [] 0 =
     foldl (\<lambda>acc i. bind acc (\<lambda>rval'. gemm_canonicalize sample_env sample_fgraph i (Lit 1) rval' 1))
       (Inr []) [var_bZ, var_aD] \<and>
   gemm_canonicalize sample_env sample_fgraph var_out (Lit 1) [] 0 =
     Inr [Pair (SVar var_beta) var_Z, Pair (SVar var_alpha) var_dot] \<and>
   gemm_canonicalize sample_env sample_fgraph var_bZ (Lit 1) [] 1 =
     bind (mul_scale sample_env (Lit 1) [var_beta])
       (\<lambda>scale'. gemm_canonicalize sample_env sample_fgraph var_Z scale' [] 1) \<and>
   gemm_canonicalize sample_env sample_fgraph var_bZ (Lit 1) [] 1 =
     Inr [Pair (SVar var_beta) var_Z] \<and>
   gemm_canonicalize sample_env sample_fgraph var_sub (Lit 1) [] 0 =
     Inr [Pair (Lit 1) var_Z, Pair (Lit (- 1)) var_dot] \<and>
   gemm_canonicalize sample_env sample_fgraph var_neg (Lit 1) [] 0 = Inr [Pair (Lit (- 1)) var_Z] \<and>
   gemm_canonicalize sample_env sample_fgraph var_Z (Lit 1) [] 1 = Inr [Pair (Lit 1) var_Z] \<and>
   gemm_canonicalize sample_env sample_fgraph (lmatrix 0) (Lit 1) [] 1 = Inr [Single (lmatrix 0)]"
proof -
  have leafZ: "gemm_canonicalize sample_env sample_fgraph var_Z s rv (Suc 0) = Inr (rv @ [Pair s var_Z])"
    for s rv
    using gemm_canonicalize_rules
      [where env = sample_env and fgraph = sample_fgraph and r = var_Z and maxclients = "Suc 0"
         and scale = s and rval = rv]
    by (simp add: canon_eval sample_vars)
  have leafD: "gemm_canonicalize sample_env sample_fgraph var_dot s rv (Suc 0) = Inr (rv @ [Pair s var_dot])"
    for s rv
    using gemm_canonicalize_rules
      [where env = sample_env and fgraph = sample_fgraph and r = var_dot and maxclients = "Suc 0"
         and scale = s and rval = rv]
    by (simp add: canon_eval sample_vars)
  have cl: "classify [var_beta2, var_Z] ([], [], []) = Inr (Some ([var_beta], [], [var_Z]))"
    by (simp add: canon_eval sample_vars)
  have "eligible sample_fgraph var_bZ 1" "owner var_bZ = Some (Apply mul [var_beta2, var_Z])"
    by (simp_all add: canon_eval var_bZ_def var_beta2_def var_Z_def dmat_type_def dmatrix_def)
  with cl gemm_canonicalize_rules
      [where env = sample_env and fgraph = sample_fgraph and r = var_bZ and maxclients = 1
         and scale = "Lit 1" and rval = "[]" and ins = "[var_beta2, var_Z]"
         and scalars = "[var_beta]" and m = var_Z]
  have mulr: "gemm_canonicalize sample_env sample_fgraph var_bZ (Lit 1) [] 1 =
     bind (mul_scale sample_env (Lit 1) [var_beta])
       (\<lambda>scale'. gemm_canonicalize sample_env sample_fgraph var_Z scale' [] 1)"
    by blast
  have "eligible sample_fgraph var_out 0" "owner var_out = Some (Apply add [var_bZ, var_aD])"
    by (simp_all add: canon_eval var_out_def dmat_type_def)
  with gemm_canonicalize_rules
      [where env = sample_env and fgraph = sample_fgraph and r = var_out and maxclients = 0
         and scale = "Lit 1" and rval = "[]" and ins = "[var_bZ, var_aD]"]
  have addr: "gemm_canonicalize sample_env sample_fgraph var_out (Lit 1) [] 0 =
     foldl (\<lambda>acc i. bind acc (\<lambda>rval'. gemm_canonicalize sample_env sample_fgraph i (Lit 1) rval' 1))
       (Inr []) [var_bZ, var_aD]"
    by blast
  have "eligible sample_fgraph var_sub 0" "owner var_sub = Some (Apply sub [var_Z, var_dot])"
    by (simp_all add: canon_eval var_sub_def dmat_type_def)
  with gemm_canonicalize_rules
      [where env = sample_env and fgraph = sample_fgraph and r = var_sub and maxclients = 0
         and scale = "Lit 1" and rval = "[]" and a = var_Z and b = var_dot]
  have subr: "gemm_canonicalize sample_env sample_fgraph var_sub (Lit 1) [] 0 =
     Inr [Pair (Lit 1) var_Z, Pair (Lit (- 1)) var_dot]"
    by (simp add: leafZ leafD scale_neg_def)
  have "eligible sample_fgraph var_neg 0" "owner var_neg = Some (Apply neg [var_Z])"
    by (simp_all add: canon_eval var_neg_def dmat_type_def)
  with gemm_canonicalize_rules
      [where env = sample_env and fgraph = sample_fgraph and r = var_neg and maxclients = 0
         and scale = "Lit 1" and rval = "[]" and a = var_Z]
  have negr: "gemm_canonicalize sample_env sample_fgraph var_neg (Lit 1) [] 0 =
     Inr [Pair (Lit (- 1)) var_Z]"
    by (simp add: leafZ scale_neg_def)
  have single: "gemm_canonicalize sample_env sample_fgraph (lmatrix 0) (Lit 1) [] 1 =
      Inr [Single (lmatrix 0)]"
    using gemm_canonicalize_rules
      [where env = sample_env and fgraph = sample_fgraph and r = "lmatrix 0" and maxclients = 1
         and scale = "Lit 1" and rval = "[]"]
    by (simp add: canon_eval lmatrix_def)
  from mulr have mulv: "gemm_canonicalize sample_env sample_fgraph var_bZ (Lit 1) [] 1 =
      Inr [Pair (SVar var_beta) var_Z]"
    by (simp add: mul_scale_def scaled_def scale_eq_def leafZ)
  show ?thesis
    using addr mulr mulv subr negr single leafZ [of "Lit 1" "[]"] canon_sample [of sample_env]
    by simp
qed

section \<open>Properties of the rewrite of one node\<close>

lemmas sample_vars2 =
  fmat_type_def fmatrix_def var_fdot_def var_c2_def var_cW_def var_out2_def dmat_type_def
  dscalar_def

lemma canon_sample2:
  "gemm_canonicalize env sample_fgraph2 var_out2 (Lit 1) [] 0 =
     Inr [Pair (Lit 1) (fmatrix 20), Pair (Lit 1) var_fdot, Pair (SVar (dscalar 25)) (fmatrix 23)]"
  by (simp add: gemm_canonicalize.simps sample_vars2 sample_fgraph2_def is_TensorType_def ndim_def
      gemm_dtypes_def add_def sub_def neg_def mul_def is_DimShuffle_def is_real_matrix_def
      is_real_vector_def float_dtypes_def mul_scale_def scaled_def scale_eq_def Let_def)

lemma factor_sample2:
  "factor_canonicalized (=) add_op
      [Pair (Lit 1) (fmatrix 20), Pair (Lit 1) var_fdot, Pair (SVar (dscalar 25)) (fmatrix 23)] =
     Inr [Pair (Lit 1) (fmatrix 20), Pair (Lit 1) var_fdot, Pair (SVar (dscalar 25)) (fmatrix 23)]"
  by (simp add: factor_canonicalized_def factor_outer.simps factor_inner.simps sample_vars2)

lemma factored_sample2:
  "gemm_from_factored_list sample_env
      [Pair (Lit 1) (fmatrix 20), Pair (Lit 1) var_fdot, Pair (SVar (dscalar 25)) (fmatrix 23)] =
     Inr (Some ([var_fgemm], var_fdot))"
proof -
  have c: "cast_pairs sample_env
      [Pair (Lit 1) (fmatrix 20), Pair (Lit 1) var_fdot, Pair (SVar (dscalar 25)) (fmatrix 23)] =
      Inr [(one_f32, fmatrix 20), (one_f32, var_fdot)]"
    by (simp add: as_tensor_variable_def sample_env_def sample_upcast_def sample_rank_def
        sample_vars2 one_f32_def Let_def)
  have g: "gemm_no_inplace_call sample_env [fmatrix 20, one_f32, fmatrix 21, fmatrix 22, one_f32] =
      Inr var_fgemm"
    by (simp add: gemm_no_inplace_call_def Gemm_make_node_def sample_vars2 var_fgemm_def
        one_f32_def is_TensorType_def is_DenseTensorType_def ndim_def startswith_def
        gemm_no_inplace_def Let_def)
  have m: "beta_L_plus_alpha_M sample_env one_f32 (fmatrix 20) one_f32 var_fdot True =
      Inr (Some ([var_fgemm], var_fdot))"
    unfolding beta_L_plus_alpha_M_def beta_L_plus_alpha_M_match_def
    using g by (simp add: var_fdot_def)
  have p: "try_pairs sample_env [(one_f32, fmatrix 20), (one_f32, var_fdot)] [(0, 1)] =
      Inr (Some ([var_fgemm], var_fdot))"
    using m by (simp add: others_def upt_rec sample_env_def sample_vars2)
  show ?thesis
    using c p by (simp add: gemm_from_factored_list_def upt_rec)
qed


lemma try_pairs_single:
  "try_pairs env lst ps = Inr (Some (vs, old)) \<Longrightarrow> length vs = 1"
proof (induction ps)
  case Nil
  then show ?case by simp
next
  case (Cons p ps)
  obtain i j where p: "p = (i, j)" by (cases p)
  obtain s_i M_i s_j M_j where l: "lst ! i = (s_i, M_i)" "lst ! j = (s_j, M_j)"
    by (metis surj_pair)
  show ?case
  proof (cases "try_pairs env lst ps = Inr (Some (vs, old))")
    case True
    then show ?thesis by (rule Cons.IH)
  next
    case False
    with Cons.prems p l show ?thesis
      by (auto simp: bind_def Let_def split: if_splits sum.splits option.splits)
  qed
qed

text \<open>
  Claim C5. Whenever \<^verbatim>\<open>_gemm_from_node2\<close> returns a replacement, it is one variable
  whose type is in the same class as the type of the node's output; so, \<^verbatim>\<open>in_same_class\<close>
  holding only between types of equal dtype and rank, the replacement has the dtype and
  the rank of the original output. A candidate whose type is not in the class of the
  output's type is abandoned: the function returns no replacement.
\<close>

theorem gemm_from_node2_keeps_type:
  "((\<forall>t u. in_same_class env t u \<longrightarrow> dtype t = dtype u \<and> ndim t = ndim u) \<and>
    gemm_from_node2 env fgraph out = Inr (Some (new_outputs, old_dot)) \<longrightarrow>
      (\<exists>v. new_outputs = [v] \<and> in_same_class env (vtype v) (vtype out) \<and>
           dtype (vtype v) = dtype (vtype out) \<and> ndim (vtype v) = ndim (vtype out))) \<and>
   (gemm_canonicalize env fgraph out (Lit 1) [] 0 = Inr lst \<and>
    factor_canonicalized (=) (scale_add env) lst = Inr lst' \<and>
    gemm_from_factored_list env lst' = Inr (Some (v' # vs', old')) \<and>
    \<not> in_same_class env (vtype v') (vtype out) \<longrightarrow>
      gemm_from_node2 env fgraph out = Inr None)"
proof (intro conjI impI)
  assume a: "(\<forall>t u. in_same_class env t u \<longrightarrow> dtype t = dtype u \<and> ndim t = ndim u) \<and>
    gemm_from_node2 env fgraph out = Inr (Some (new_outputs, old_dot))"
  then obtain lst2 ps v where
    t: "try_pairs env lst2 ps = Inr (Some (new_outputs, old_dot))" and
    v: "new_outputs = v # tl new_outputs" and c: "in_same_class env (vtype v) (vtype out)"
    by (auto simp: gemm_from_node2_def gemm_from_factored_list_def bind_def
        split: sum.splits if_splits option.splits list.splits)
  from try_pairs_single [OF t] v have "new_outputs = [v]"
    by (cases new_outputs) auto
  with a c show "\<exists>v. new_outputs = [v] \<and> in_same_class env (vtype v) (vtype out) \<and>
           dtype (vtype v) = dtype (vtype out) \<and> ndim (vtype v) = ndim (vtype out)"
    by blast
next
  assume "gemm_canonicalize env fgraph out (Lit 1) [] 0 = Inr lst \<and>
    factor_canonicalized (=) (scale_add env) lst = Inr lst' \<and>
    gemm_from_factored_list env lst' = Inr (Some (v' # vs', old')) \<and>
    \<not> in_same_class env (vtype v') (vtype out)"
  then show "gemm_from_node2 env fgraph out = Inr None"
    by (simp add: gemm_from_node2_def)
qed

theorem gemm_from_node2_keeps_type_witness:
  "gemm_from_node2 sample_env sample_fgraph var_out = Inr (Some ([var_gemm], var_dot)) \<and>
   dtype (vtype var_gemm) = dtype (vtype var_out) \<and> ndim (vtype var_gemm) = ndim (vtype var_out) \<and>
   gemm_from_factored_list sample_env
     [Pair (Lit 1) (fmatrix 20), Pair (Lit 1) var_fdot, Pair (SVar (dscalar 25)) (fmatrix 23)] =
     Inr (Some ([var_fgemm], var_fdot)) \<and>
   \<not> in_same_class sample_env (vtype var_fgemm) (vtype var_out2) \<and>
   gemm_from_node2 sample_env sample_fgraph2 var_out2 = Inr None"
proof -
  have h: "\<forall>t u. in_same_class sample_env t u \<longrightarrow> dtype t = dtype u \<and> ndim t = ndim u"
    by (auto simp: sample_env_def broadcastable_def ndim_def dest: map_eq_imp_length_eq)
  have e: "gemm_from_node2 sample_env sample_fgraph var_out = Inr (Some ([var_gemm], var_dot))"
    by (rule from_node2_sample)
       (simp_all add: sample_env_def sample_upcast_def var_alpha_def var_beta_def dscalar_def)
  have n: "\<not> in_same_class sample_env (vtype var_fgemm) (vtype var_out2)"
    by (simp add: sample_env_def var_fgemm_def var_out2_def fmat_type_def dmat_type_def)
  note inst = gemm_from_node2_keeps_type
    [where env = sample_env and fgraph = sample_fgraph and out = var_out
       and new_outputs = "[var_gemm]" and old_dot = var_dot]
    gemm_from_node2_keeps_type
    [where env = sample_env and fgraph = sample_fgraph2 and out = var_out2
       and v' = var_fgemm and vs' = "[]" and old' = var_fdot and
       lst = "[Pair (Lit 1) (fmatrix 20), Pair (Lit 1) var_fdot, Pair (SVar (dscalar 25)) (fmatrix 23)]"
       and lst' = "[Pair (Lit 1) (fmatrix 20), Pair (Lit 1) var_fdot, Pair (SVar (dscalar 25)) (fmatrix 23)]"]
  from inst(1) h e have "dtype (vtype var_gemm) = dtype (vtype var_out) \<and>
      ndim (vtype var_gemm) = ndim (vtype var_out)"
    by auto
  moreover from inst(2) n have "gemm_from_node2 sample_env sample_fgraph2 var_out2 = Inr None"
    by (simp add: canon_sample2 factor_sample2 factored_sample2)
  ultimately show ?thesis
    using e n factored_sample2 by simp
qed

text \<open>
  Claim C1. On the graph of \<open>beta * Z + alpha * dot(X, Y)\<close> with inputs of dtype
  \<^verbatim>\<open>"float64"\<close>, \<^verbatim>\<open>_gemm_from_node2\<close> returns a single replacement, the output of the one
  node \<^verbatim>\<open>gemm_no_inplace(Z, alpha, X, Y, beta)\<close>, and removes the matrix product; running
  that operator on \<open>Z = [[1,2],[3,4]]\<close>, \<open>alpha = 2\<close>, \<open>X = [[1,0],[0,1]]\<close>,
  \<open>Y = [[5,6],[7,8]]\<close>, \<open>beta = 1\<close> returns \<open>[[11,14],[17,20]]\<close>. The parameters need
  only leave the dtype \<^verbatim>\<open>"float64"\<close> alone: its upcast with itself is itself, a cast to it
  returns a variable of that dtype unchanged, and the type of a matrix is in its own
  class. The numbers of the example are small integers, on which floating point
  arithmetic is exact.
\<close>

theorem gemm_worked_example:
  "upcast env ''float64'' ''float64'' = ''float64'' \<and>
   cast env var_alpha ''float64'' = Inr var_alpha \<and>
   cast env var_beta ''float64'' = Inr var_beta \<and>
   in_same_class env dmat_type dmat_type \<longrightarrow>
     gemm_from_node2 env sample_fgraph var_out = Inr (Some ([var_gemm], var_dot)) \<and>
     owner var_gemm = Some (Apply gemm_no_inplace [var_Z, var_alpha, var_X, var_Y, var_beta]) \<and>
     output_value (perform False [Z_val, X_val, Y_val] 0 2 1 2 1) =
       Inr \<lparr>shape0 = 2, shape1 = 2, rows = [[11, 14], [17, 20]]\<rparr>"
proof (intro impI conjI)
  assume "upcast env ''float64'' ''float64'' = ''float64'' \<and>
   cast env var_alpha ''float64'' = Inr var_alpha \<and>
   cast env var_beta ''float64'' = Inr var_beta \<and>
   in_same_class env dmat_type dmat_type"
  then show "gemm_from_node2 env sample_fgraph var_out = Inr (Some ([var_gemm], var_dot))"
    by (intro from_node2_sample) simp_all
next
  show "owner var_gemm = Some (Apply gemm_no_inplace [var_Z, var_alpha, var_X, var_Y, var_beta])"
    by (simp add: var_gemm_def)
next
  show "output_value (perform False [Z_val, X_val, Y_val] 0 2 1 2 1) =
       Inr \<lparr>shape0 = 2, shape1 = 2, rows = [[11, 14], [17, 20]]\<rparr>"
    by (simp add: output_value_def perform_def perform_copy_def perform_broadcast_def
        perform_accumulate_def alloc_def Z_val_def X_val_def Y_val_def np_dot_def iadd_def
        np_scale_def broadcast_to_def upt_rec)
qed

theorem gemm_worked_example_witness:
  "gemm_from_node2 sample_env sample_fgraph var_out = Inr (Some ([var_gemm], var_dot)) \<and>
   owner var_gemm = Some (Apply gemm_no_inplace [var_Z, var_alpha, var_X, var_Y, var_beta]) \<and>
   output_value (perform False [Z_val, X_val, Y_val] 0 2 1 2 1) =
     Inr \<lparr>shape0 = 2, shape1 = 2, rows = [[11, 14], [17, 20]]\<rparr>"
proof -
  have "upcast sample_env ''float64'' ''float64'' = ''float64'' \<and>
   cast sample_env var_alpha ''float64'' = Inr var_alpha \<and>
   cast sample_env var_beta ''float64'' = Inr var_beta \<and>
   in_same_class sample_env dmat_type dmat_type"
    by (simp add: sample_env_def sample_upcast_def var_alpha_def var_beta_def dscalar_def)
  with gemm_worked_example [of sample_env] show ?thesis by blast
qed

section \<open>Exceptions of the rewrite of one node\<close>

text \<open>
  \<^verbatim>\<open>_gemm_from_node2\<close> raises no \<^verbatim>\<open>ReplacementDidNotRemoveError\<close> of its own: it
  raises one only if the dtype rule of a scalar operator or \<^verbatim>\<open>cast\<close> does.
\<close>

lemma bind_InlE:
  assumes "bind m f = Inl e"
  obtains "m = Inl e" | x where "m = Inr x" "f x = Inl e"
  using assms by (cases m) simp_all

lemma mapM_no_RDNR:
  "(\<And>x. f x \<noteq> Inl ReplacementDidNotRemoveError) \<Longrightarrow>
   mapM f xs \<noteq> Inl ReplacementDidNotRemoveError"
  by (induction xs) (auto elim!: bind_InlE)

lemma DimShuffle_init_no_RDNR:
  "DimShuffle_init ib order \<noteq> Inl ReplacementDidNotRemoveError"
  by (simp add: DimShuffle_init_def)

lemma DimShuffle_make_node_no_RDNR:
  "DimShuffle_make_node ib order input \<noteq> Inl ReplacementDidNotRemoveError"
  by (simp add: DimShuffle_make_node_def)

lemma dimshuffle_no_RDNR:
  "dimshuffle v pattern \<noteq> Inl ReplacementDidNotRemoveError"
  by (auto simp: dimshuffle_def DimShuffle_init_no_RDNR DimShuffle_make_node_no_RDNR
      elim!: bind_InlE)

lemma get_most_specialized_shape_no_RDNR:
  "get_most_specialized_shape shapes \<noteq> Inl ReplacementDidNotRemoveError"
  by (simp add: get_most_specialized_shape_def split: list.splits)

lemma pad_input_no_RDNR:
  "pad_input n input \<noteq> Inl ReplacementDidNotRemoveError"
  unfolding pad_input_def Let_def
  by (auto elim!: bind_InlE simp: DimShuffle_init_no_RDNR DimShuffle_make_node_no_RDNR)

lemma Elemwise_make_node_no_RDNR:
  assumes "\<And>sop ds. scalar_out env sop ds \<noteq> Inl ReplacementDidNotRemoveError"
  shows "Elemwise_make_node env sop inps \<noteq> Inl ReplacementDidNotRemoveError"
  unfolding Elemwise_make_node_def Let_def
  by (auto elim!: bind_InlE simp: mapM_no_RDNR assms pad_input_no_RDNR
      get_most_specialized_shape_no_RDNR split: if_splits)

lemma scale_no_RDNR:
  assumes "\<And>sop ds. scalar_out env sop ds \<noteq> Inl ReplacementDidNotRemoveError"
  shows "neg_v env v \<noteq> Inl ReplacementDidNotRemoveError"
    "mul_v env vs \<noteq> Inl ReplacementDidNotRemoveError"
    "add_v env vs \<noteq> Inl ReplacementDidNotRemoveError"
    "scale_neg env s \<noteq> Inl ReplacementDidNotRemoveError"
    "scale_add env s t \<noteq> Inl ReplacementDidNotRemoveError"
    "scaled env s v \<noteq> Inl ReplacementDidNotRemoveError"
    "item_to_var env it \<noteq> Inl ReplacementDidNotRemoveError"
  using Elemwise_make_node_no_RDNR [OF assms]
  by (auto simp: neg_v_def mul_v_def add_v_def scale_neg_def scale_add_def scaled_def
      item_to_var_def elim!: bind_InlE split: scale.splits item.splits if_splits)


lemma factor_inner_no_RDNR:
  "(\<forall>a b. add_op a b \<noteq> Inl ReplacementDidNotRemoveError) \<Longrightarrow>
   factor_inner is_op add_op lst i s_i M_i j \<noteq> Inl ReplacementDidNotRemoveError"
proof (induction is_op add_op lst i s_i M_i j rule: factor_inner.induct)
  case (1 is_op add_op lst i s_i M_i j)
  then show ?case
    by (subst factor_inner.simps) (auto split: item.splits sum.splits)
qed

lemma factor_outer_no_RDNR:
  "(\<forall>a b. add_op a b \<noteq> Inl ReplacementDidNotRemoveError) \<Longrightarrow>
   factor_outer is_op add_op lst i \<noteq> Inl ReplacementDidNotRemoveError"
proof (induction is_op add_op lst i rule: factor_outer.induct)
  case (1 is_op add_op lst i)
  then show ?case
    using factor_inner_no_RDNR [of add_op is_op]
    by (subst factor_outer.simps) (auto split: item.splits sum.splits)
qed

lemma Gemm_make_node_no_RDNR:
  "Gemm_make_node env inpl inps \<noteq> Inl ReplacementDidNotRemoveError"
  by (simp add: Gemm_make_node_def Let_def)

lemma classify_no_RDNR:
  "classify ins acc \<noteq> Inl ReplacementDidNotRemoveError"
  by (induction ins acc rule: classify.induct)
     (auto simp: Let_def dimshuffle_no_RDNR elim!: bind_InlE split: if_splits)

lemma mul_scale_no_RDNR:
  assumes "\<And>sop ds. scalar_out env sop ds \<noteq> Inl ReplacementDidNotRemoveError"
  shows "mul_scale env scale scalars \<noteq> Inl ReplacementDidNotRemoveError"
  using scale_no_RDNR [OF assms]
  by (auto simp: mul_scale_def elim!: bind_InlE split: list.splits)

lemma foldl_bind_no_RDNR:
  assumes "\<And>i rval. i \<in> set xs \<Longrightarrow> f i rval \<noteq> Inl ReplacementDidNotRemoveError"
    and "acc \<noteq> Inl ReplacementDidNotRemoveError"
  shows "foldl (\<lambda>acc i. bind acc (\<lambda>rval'. f i rval')) acc xs \<noteq> Inl ReplacementDidNotRemoveError"
  using assms
proof (induction xs arbitrary: acc)
  case Nil
  then show ?case by simp
next
  case (Cons x xs)
  have "bind acc (f x) \<noteq> Inl ReplacementDidNotRemoveError"
    using Cons.prems by (auto elim!: bind_InlE)
  with Cons show ?case by simp
qed


lemma gemm_canonicalize_no_RDNR:
  "(\<forall>sop ds. scalar_out env sop ds \<noteq> Inl ReplacementDidNotRemoveError) \<Longrightarrow>
   gemm_canonicalize env fgraph r scale rval maxclients \<noteq> Inl ReplacementDidNotRemoveError"
proof (induction env fgraph r scale rval maxclients rule: gemm_canonicalize.induct)
  case (1 env fgraph r scale rval maxclients)
  note so = "1.prems" [rule_format]
  note sc = scale_no_RDNR [of env, OF so]
  note ms = mul_scale_no_RDNR [of env, OF so]
  note unfold = gemm_canonicalize.simps [of env fgraph r scale rval maxclients]
  let ?tm = "if maxclients \<noteq> 0
              then (case clients fgraph r of
                      None \<Rightarrow> Inl KeyError
                    | Some cs \<Rightarrow> Inr (length cs > maxclients))
              else Inr False"
  show ?case
  proof (cases "is_TensorType (vtype r)")
    case False
    then show ?thesis by (simp add: unfold)
  next
    case tt: True
    show ?thesis
    proof (cases "ndim (vtype r) \<notin> {1, 2} \<or> dtype (vtype r) \<notin> set gemm_dtypes")
      case True
      with tt sc(6) [of scale r] show ?thesis
        by (auto simp: unfold elim!: bind_InlE)
    next
      case el: False
      show ?thesis
      proof (cases ?tm)
        case (Inl e)
        then have "e \<noteq> ReplacementDidNotRemoveError"
          by (auto split: if_splits option.splits)
        with tt el Inl show ?thesis
          by (simp add: unfold)
      next
        case tm: (Inr too_many)
        show ?thesis
        proof (cases too_many)
          case True
          with tt el tm show ?thesis by (simp add: unfold)
        next
          case nm: False
          show ?thesis
          proof (cases "owner r")
            case None
            with tt el tm nm show ?thesis by (simp add: unfold)
          next
            case ow: (Some node)
            note pre = tt el tm nm ow
            consider (sub) "op node = sub"
              | (add) "op node \<noteq> sub" "op node = add"
              | (neg) "op node \<noteq> sub" "op node \<noteq> add" "op node = neg"
              | (mul) "op node \<noteq> sub" "op node \<noteq> add" "op node \<noteq> neg" "op node = mul"
              | (other) "op node \<noteq> sub" "op node \<noteq> add" "op node \<noteq> neg" "op node \<noteq> mul"
              by blast
            then show ?thesis
            proof cases
              case sub
              show ?thesis
              proof (cases "inputs node")
                case Nil
                with pre sub show ?thesis by (simp add: unfold)
              next
                case i0: (Cons i0 rest)
                have ih0: "gemm_canonicalize env fgraph i0 scale rval 1 \<noteq>
                    Inl ReplacementDidNotRemoveError"
                  using "1.IH"(1) [of too_many node i0 rest] pre sub i0 "1.prems" by simp
                have ih1: "gemm_canonicalize env fgraph i1 nscale rval1 1 \<noteq>
                    Inl ReplacementDidNotRemoveError"
                  if "gemm_canonicalize env fgraph i0 scale rval 1 = Inr rval1" "rest = i1 # tl"
                    "scale_neg env scale = Inr nscale" for rval1 i1 tl nscale
                  using "1.IH"(2) [of too_many node i0 rest rval1 i1 tl nscale] pre sub i0 that
                    "1.prems"
                  by simp
                have "bind (gemm_canonicalize env fgraph i0 scale rval 1) (\<lambda>rval1.
                      (case rest of
                         [] \<Rightarrow> Inl IndexError
                       | i1 # _ \<Rightarrow>
                           bind (scale_neg env scale) (\<lambda>nscale.
                           gemm_canonicalize env fgraph i1 nscale rval1 1))) \<noteq>
                       Inl ReplacementDidNotRemoveError"
                  using ih0 ih1 sc(4) [of scale]
                  by (auto elim!: bind_InlE split: list.splits)
                with pre sub i0 show ?thesis by (simp add: unfold)
              qed
            next
              case add
              have "foldl (\<lambda>acc i. bind acc (\<lambda>rval'. gemm_canonicalize env fgraph i scale rval' 1))
                  (Inr rval) (inputs node) \<noteq> Inl ReplacementDidNotRemoveError"
              proof (rule foldl_bind_no_RDNR)
                fix i rval'
                assume "i \<in> set (inputs node)"
                then show "gemm_canonicalize env fgraph i scale rval' 1 \<noteq>
                    Inl ReplacementDidNotRemoveError"
                  using "1.IH"(3) [of too_many node i _ rval'] pre add "1.prems" by simp
              qed simp
              with pre add show ?thesis by (simp add: unfold)
            next
              case neg
              show ?thesis
              proof (cases "inputs node")
                case Nil
                with pre neg show ?thesis by (simp add: unfold)
              next
                case i0: (Cons i0 rest)
                have ih: "gemm_canonicalize env fgraph i0 nscale rval 1 \<noteq>
                    Inl ReplacementDidNotRemoveError"
                  if "scale_neg env scale = Inr nscale" for nscale
                  using "1.IH"(4) [of too_many node i0 rest nscale] pre neg i0 that "1.prems"
                  by simp
                have "bind (scale_neg env scale) (\<lambda>nscale.
                      gemm_canonicalize env fgraph i0 nscale rval 1) \<noteq>
                       Inl ReplacementDidNotRemoveError"
                  using ih sc(4) [of scale] by (auto elim!: bind_InlE)
                with pre neg i0 show ?thesis by (simp add: unfold)
              qed
            next
              case mul
              show ?thesis
              proof (cases "classify (inputs node) ([], [], [])")
                case (Inl e)
                with classify_no_RDNR [of "inputs node" "([], [], [])"]
                have "e \<noteq> ReplacementDidNotRemoveError" by auto
                with pre mul Inl show ?thesis by (simp add: unfold)
              next
                case c: (Inr c)
                show ?thesis
                proof (cases c)
                  case None
                  with pre mul c show ?thesis by (simp add: unfold)
                next
                  case (Some svm)
                  obtain scalars vectors matrices where svm: "svm = (scalars, vectors, matrices)"
                    by (cases svm) auto
                  have nn: "\<not> \<not> is_TensorType (vtype r)"
                    using tt by simp
                  have ihm: "gemm_canonicalize env fgraph (matrices ! 0) scale' rval 1 \<noteq>
                      Inl ReplacementDidNotRemoveError"
                    if m1: "length matrices = 1" and v0: "\<not> length vectors \<noteq> 0"
                      and msc: "mul_scale env scale scalars = Inr scale'" for scale'
                    by (rule "1.IH"(5)
                        [OF nn el tm nm ow mul c Some svm [symmetric] refl m1 v0 msc "1.prems"])
                  have ihv: "gemm_canonicalize env fgraph (vectors ! 0) scale' rval 1 \<noteq>
                      Inl ReplacementDidNotRemoveError"
                    if m1: "length matrices \<noteq> 1" and v1: "length vectors = 1"
                      and m0: "\<not> length matrices \<noteq> 0"
                      and msc: "mul_scale env scale scalars = Inr scale'" for scale'
                    by (rule "1.IH"(6)
                        [OF nn el tm nm ow mul c Some svm [symmetric] refl m1 v1 m0 msc "1.prems"])
                  have "(if length matrices = 1 then
                        (if length vectors \<noteq> 0 then Inl AssertionError
                         else bind (mul_scale env scale scalars) (\<lambda>scale'.
                              gemm_canonicalize env fgraph (matrices ! 0) scale' rval 1))
                      else if length vectors = 1 then
                        (if length matrices \<noteq> 0 then Inl AssertionError
                         else bind (mul_scale env scale scalars) (\<lambda>scale'.
                              gemm_canonicalize env fgraph (vectors ! 0) scale' rval 1))
                      else Inr (rval @ [Pair scale r])) \<noteq> Inl ReplacementDidNotRemoveError"
                  proof (cases "length matrices = 1")
                    case True
                    with ihm ms [of scale scalars] show ?thesis
                      by (cases "length vectors \<noteq> 0") (auto elim!: bind_InlE)
                  next
                    case False
                    with ihv ms [of scale scalars] show ?thesis
                      by (cases "length vectors = 1"; cases "length matrices \<noteq> 0")
                         (auto elim!: bind_InlE)
                  qed
                  with pre mul c Some svm show ?thesis by (simp add: unfold)
                qed
              qed
            next
              case other
              with pre show ?thesis by (simp add: unfold)
            qed
          qed
        qed
      qed
    qed
  qed
qed


lemma beta_L_plus_alpha_M_match_no_RDNR:
  "beta_L_plus_alpha_M_match env beta L alpha M \<noteq> Inl ReplacementDidNotRemoveError"
proof -
  have g: "bind (dimshuffle L p) (\<lambda>L'.
      bind (gemm_no_inplace_call env [L', alpha, MMl, MMr, beta]) (\<lambda>g.
      bind (dimshuffle g q) (\<lambda>g'. Inr (Some ([g'], MM))))) \<noteq>
      Inl ReplacementDidNotRemoveError" for p q MMl MMr MM
    by (auto simp: gemm_no_inplace_call_def Gemm_make_node_no_RDNR dimshuffle_no_RDNR
        elim!: bind_InlE)
  have h: "bind (gemm_no_inplace_call env [L, alpha, Ml, Mr, beta]) (\<lambda>g. Inr (Some ([g], M))) \<noteq>
      Inl ReplacementDidNotRemoveError" for Ml Mr
    by (auto simp: gemm_no_inplace_call_def Gemm_make_node_no_RDNR elim!: bind_InlE)
  show ?thesis
    unfolding beta_L_plus_alpha_M_match_def
    by (simp add: g h split: option.split list.split)
qed

lemma beta_L_plus_alpha_M_no_RDNR:
  "beta_L_plus_alpha_M env beta L alpha M flip \<noteq> Inl ReplacementDidNotRemoveError"
  by (auto simp: beta_L_plus_alpha_M_def beta_L_plus_alpha_M_match_no_RDNR
      elim!: bind_InlE split: option.splits if_splits)

lemma cast_pairs_no_RDNR:
  "(\<forall>v d. cast env v d \<noteq> Inl ReplacementDidNotRemoveError) \<Longrightarrow>
   cast_pairs env lst \<noteq> Inl ReplacementDidNotRemoveError"
  by (induction env lst rule: cast_pairs.induct)
     (auto simp: Let_def elim!: bind_InlE split: if_splits)

lemma try_pairs_no_RDNR:
  "(\<forall>sop ds. scalar_out env sop ds \<noteq> Inl ReplacementDidNotRemoveError) \<Longrightarrow>
   try_pairs env lst ps \<noteq> Inl ReplacementDidNotRemoveError"
proof (induction env lst ps rule: try_pairs.induct)
  case (1 env lst)
  then show ?case by simp
next
  case (2 env lst i j rest)
  note so = "2.prems" [rule_format]
  note sc = scale_no_RDNR [of env, OF so]
  obtain s_i M_i s_j M_j where ij: "lst ! i = (s_i, M_i)" "lst ! j = (s_j, M_j)"
    by (cases "lst ! i"; cases "lst ! j") auto
  have m: "mapM (\<lambda>(s, M). item_to_var env (Pair (SVar s) M)) (others lst i j) \<noteq>
      Inl ReplacementDidNotRemoveError"
    by (rule mapM_no_RDNR) (simp add: sc split: prod.split)
  show ?case
  proof (cases "in_same_class env (vtype M_j) (vtype M_i)")
    case False
    with "2.IH"(1) [OF refl ij(1) [symmetric] ij(2) [symmetric]] "2.prems" ij show ?thesis
      by simp
  next
    case True
    show ?thesis
    proof (cases "beta_L_plus_alpha_M env s_i M_i s_j M_j True")
      case (Inl e)
      with beta_L_plus_alpha_M_no_RDNR [of env s_i M_i s_j M_j True]
      have "e \<noteq> ReplacementDidNotRemoveError" by auto
      with True ij Inl show ?thesis by simp
    next
      case (Inr res)
      show ?thesis
      proof (cases res)
        case None
        with True ij Inr "2.prems"
          "2.IH"(2) [OF refl ij(1) [symmetric] ij(2) [symmetric] _ Inr None]
        show ?thesis by simp
      next
        case (Some found)
        obtain gl old where found: "found = (gl, old)" by (cases found) auto
        from True ij Inr Some found m sc(3) show ?thesis
          by (auto simp: Let_def elim!: bind_InlE split: if_splits)
      qed
    qed
  qed
qed

lemma gemm_from_factored_list_no_RDNR:
  "(\<forall>sop ds. scalar_out env sop ds \<noteq> Inl ReplacementDidNotRemoveError) \<Longrightarrow>
   (\<forall>v d. cast env v d \<noteq> Inl ReplacementDidNotRemoveError) \<Longrightarrow>
   gemm_from_factored_list env lst \<noteq> Inl ReplacementDidNotRemoveError"
  by (auto simp: gemm_from_factored_list_def cast_pairs_no_RDNR try_pairs_no_RDNR
      elim!: bind_InlE)

lemma gemm_from_node2_no_RDNR:
  assumes "\<forall>sop ds. scalar_out env sop ds \<noteq> Inl ReplacementDidNotRemoveError"
    and "\<forall>v d. cast env v d \<noteq> Inl ReplacementDidNotRemoveError"
  shows "gemm_from_node2 env fgraph out \<noteq> Inl ReplacementDidNotRemoveError"
proof -
  have a: "scale_add env a b \<noteq> Inl ReplacementDidNotRemoveError" for a b
    using scale_no_RDNR(5) [of env] assms(1) by blast
  have f: "factor_canonicalized (=) (scale_add env) lst \<noteq> Inl ReplacementDidNotRemoveError"
    for lst :: "(scale, var) item list"
    using factor_outer_no_RDNR [of "scale_add env"] a
    by (simp add: factor_canonicalized_def)
  show ?thesis
    using assms gemm_canonicalize_no_RDNR [of env fgraph out "Lit 1" "[]" 0] f
      gemm_from_factored_list_no_RDNR [of env]
    by (auto simp: gemm_from_node2_def elim!: bind_InlE
        split: if_splits option.splits list.splits)
qed

section \<open>Properties of the driver\<close>

lemma process_nodes_error:
  assumes "process_nodes build ops st = Some y"
    and "\<forall>fg node. build fg node \<noteq> Inl ReplacementDidNotRemoveError"
  shows "y \<noteq> Inl InconsistencyError \<and> y \<noteq> Inl ReplacementDidNotRemoveError"
proof -
  have "(\<forall>fg node. build fg node \<noteq> Inl ReplacementDidNotRemoveError) \<longrightarrow>
     y \<noteq> Inl InconsistencyError \<and> y \<noteq> Inl ReplacementDidNotRemoveError"
  proof (rule process_nodes.raw_induct
      [where P = "\<lambda>build ops st y. (\<forall>fg node. build fg node \<noteq> Inl ReplacementDidNotRemoveError) \<longrightarrow>
         y \<noteq> Inl InconsistencyError \<and> y \<noteq> Inl ReplacementDidNotRemoveError", OF _ assms(1)],
      goal_cases)
    case (1 f build ops st y)
    show ?case
    proof
      assume nb: "\<forall>fg node. build fg node \<noteq> Inl ReplacementDidNotRemoveError"
      have ih: "f build ops st' \<noteq> Some (Inl InconsistencyError)"
        "f build ops st' \<noteq> Some (Inl ReplacementDidNotRemoveError)" for st'
        using 1(1) nb by blast+
      from 1(2) nb show "y \<noteq> Inl InconsistencyError \<and> y \<noteq> Inl ReplacementDidNotRemoveError"
        by (auto simp: Let_def ih
            split: prod.splits list.splits if_splits sum.splits option.splits)
    qed
  qed
  with assms(2) show ?thesis by blast
qed

lemma process_nodes_did:
  assumes "process_nodes build ops ((fg, c, did), nl) = Some (Inr (fg', c', did'))"
  shows "nb_replacement c \<le> nb_replacement c' \<and>
         (did' \<longleftrightarrow> did \<or> nb_replacement c < nb_replacement c')"
proof -
  have "\<forall>fg0 c0 did0 nl0 fg1 c1 did1.
      ((fg, c, did), nl) = ((fg0, c0, did0), nl0) \<and>
      (Inr (fg', c', did') :: error + pass_state) = Inr (fg1, c1, did1) \<longrightarrow>
        nb_replacement c0 \<le> nb_replacement c1 \<and>
        (did1 \<longleftrightarrow> did0 \<or> nb_replacement c0 < nb_replacement c1)"
  proof (rule process_nodes.raw_induct
      [where P = "\<lambda>build ops st y. \<forall>fg0 c0 did0 nl0 fg1 c1 did1.
         st = ((fg0, c0, did0), nl0) \<and> y = Inr (fg1, c1, did1) \<longrightarrow>
           nb_replacement c0 \<le> nb_replacement c1 \<and>
           (did1 \<longleftrightarrow> did0 \<or> nb_replacement c0 < nb_replacement c1)", OF _ assms],
      goal_cases)
    case (1 f build ops st y)
    have ih: "f build ops ((fg0, c0, did0), nl0) = Some (Inr (fg1, c1, did1)) \<Longrightarrow>
        nb_replacement c0 \<le> nb_replacement c1 \<and>
        (did1 \<longleftrightarrow> did0 \<or> nb_replacement c0 < nb_replacement c1)"
      for fg0 c0 did0 nl0 fg1 c1 did1
      using 1(1) by blast
    from 1(2) show ?case
      by (auto simp: Let_def split: prod.splits list.splits if_splits sum.splits option.splits
          dest!: ih)
  qed
  then show ?thesis by blast
qed

lemma main_loop_error:
  assumes "main_loop build ops s = Some y"
    and "\<forall>fg node. build fg node \<noteq> Inl ReplacementDidNotRemoveError"
  shows "y \<noteq> Inl InconsistencyError \<and> y \<noteq> Inl ReplacementDidNotRemoveError"
proof -
  have "(\<forall>fg node. build fg node \<noteq> Inl ReplacementDidNotRemoveError) \<longrightarrow>
     y \<noteq> Inl InconsistencyError \<and> y \<noteq> Inl ReplacementDidNotRemoveError"
  proof (rule main_loop.raw_induct
      [where P = "\<lambda>build ops s y. (\<forall>fg node. build fg node \<noteq> Inl ReplacementDidNotRemoveError) \<longrightarrow>
         y \<noteq> Inl InconsistencyError \<and> y \<noteq> Inl ReplacementDidNotRemoveError", OF _ assms(1)],
      goal_cases)
    case (1 f build ops s y)
    show ?case
    proof
      assume nb: "\<forall>fg node. build fg node \<noteq> Inl ReplacementDidNotRemoveError"
      have ih: "f build ops s' \<noteq> Some (Inl InconsistencyError)"
        "f build ops s' \<noteq> Some (Inl ReplacementDidNotRemoveError)" for s'
        using 1(1) nb by blast+
      have p: "one_pass build ops s \<noteq> Some (Inl InconsistencyError)"
        "one_pass build ops s \<noteq> Some (Inl ReplacementDidNotRemoveError)"
        by (auto simp: one_pass_def split: prod.splits dest: process_nodes_error [OF _ nb])
      from 1(2) show "y \<noteq> Inl InconsistencyError \<and> y \<noteq> Inl ReplacementDidNotRemoveError"
        using p by (auto simp: ih split: option.splits sum.splits prod.splits if_splits)
    qed
  qed
  with assms(2) show ?thesis by blast
qed

lemma main_loop_complete:
  "after_passes build ops n s = Some (fg, c) \<Longrightarrow>
   one_pass build ops (fg, c) = Some (Inr (fg', c', False)) \<Longrightarrow>
   main_loop build ops s = Some (Inr (fg', c'))"
proof (induction n arbitrary: s)
  case 0
  then show ?case by (subst main_loop.simps) simp
next
  case (Suc n)
  from Suc.prems(1) obtain fg1 c1 where
    p: "one_pass build ops s = Some (Inr (fg1, c1, True))" and
    a: "after_passes build ops n (fg1, c1) = Some (fg, c)"
    by (auto split: option.splits sum.splits if_splits)
  from Suc.IH [OF a Suc.prems(2)] p show ?case
    by (subst main_loop.simps) simp
qed

lemma main_loop_sound:
  assumes "main_loop build ops s = Some (Inr (fg', c'))"
  shows "\<exists>n fg c. after_passes build ops n s = Some (fg, c) \<and>
           one_pass build ops (fg, c) = Some (Inr (fg', c', False))"
proof -
  have "\<forall>fg1 c1. (Inr (fg', c') :: error + fgraph \<times> counters) = Inr (fg1, c1) \<longrightarrow>
      (\<exists>n fg c. after_passes build ops n s = Some (fg, c) \<and>
           one_pass build ops (fg, c) = Some (Inr (fg1, c1, False)))"
  proof (rule main_loop.raw_induct
      [where P = "\<lambda>build ops s y. \<forall>fg' c'. y = Inr (fg', c') \<longrightarrow>
         (\<exists>n fg c. after_passes build ops n s = Some (fg, c) \<and>
           one_pass build ops (fg, c) = Some (Inr (fg', c', False)))", OF _ assms],
      goal_cases)
    case (1 f build ops s y)
    show ?case
    proof (intro allI impI)
      fix fg' c'
      assume y: "y = Inr (fg', c')"
      from 1(2) y obtain fg1 c1 did where p: "one_pass build ops s = Some (Inr (fg1, c1, did))"
        and r: "(if did then f build ops (fg1, c1) else Some (Inr (fg1, c1))) = Some (Inr (fg', c'))"
        by (auto split: option.splits sum.splits prod.splits)
      show "\<exists>n fg c. after_passes build ops n s = Some (fg, c) \<and>
           one_pass build ops (fg, c) = Some (Inr (fg', c', False))"
      proof (cases did)
        case False
        with r p have "after_passes build ops 0 s = Some s"
          "one_pass build ops s = Some (Inr (fg', c', False))"
          by simp_all
        then show ?thesis by (cases s) blast
      next
        case True
        with r have "f build ops (fg1, c1) = Some (Inr (fg', c'))" by simp
        from 1(1) [OF this] obtain n fg c where
          "after_passes build ops n (fg1, c1) = Some (fg, c)"
          "one_pass build ops (fg, c) = Some (Inr (fg', c', False))"
          by blast
        with p True have "after_passes build ops (Suc n) s = Some (fg, c) \<and>
            one_pass build ops (fg, c) = Some (Inr (fg', c', False))"
          by simp
        then show ?thesis by blast
      qed
    qed
  qed
  then show ?thesis by blast
qed

lemma one_pass_did:
  assumes "one_pass build ops (fg, c) = Some (Inr (fg', c', did))"
  shows "did \<longleftrightarrow> nb_replacement c < nb_replacement c'"
  using assms process_nodes_did
    [of build ops fg "c\<lparr>nb_iter := nb_iter c + 1\<rparr>" False "rev (io_toposort ops fg)" fg' c' did]
  by (simp add: one_pass_def)

lemma process_nodes_step:
  assumes "is_candidate node" "node \<in> set (apply_nodes fg)"
  shows "process_nodes build ops ((fg, c, did), node # rest) =
     (case build fg node of
        Inl e \<Rightarrow>
          if e = InconsistencyError
          then process_nodes build ops
                 ((fg, c\<lparr>nb_inconsistency_make := nb_inconsistency_make c + 1\<rparr>, did), rest)
          else Some (Inl e)
      | Inr None \<Rightarrow> process_nodes build ops ((fg, c, did), rest)
      | Inr (Some (new_outputs, old_dot22)) \<Rightarrow>
          if length new_outputs \<noteq> 1 then Some (Inl AssertionError)
          else
            (case replace_all_validate_remove ops fg (zip [node] new_outputs) [old_dot22] of
               (raised, fg', imported) \<Rightarrow>
                 let nodelist' = rest @ filter (\<lambda>new_node. new_node \<noteq> node) imported in
                 (case raised of
                    None \<Rightarrow>
                      process_nodes build ops
                        ((fg', c\<lparr>nb_replacement := nb_replacement c + 1\<rparr>, True), nodelist')
                  | Some e \<Rightarrow>
                      if e = InconsistencyError
                      then process_nodes build ops
                             ((fg', c\<lparr>nb_inconsistency_replace := nb_inconsistency_replace c + 1\<rparr>,
                               did), nodelist')
                      else if e = ReplacementDidNotRemoveError
                      then process_nodes build ops
                             ((fg', c\<lparr>nb_replacement_didn_t_remove :=
                                       nb_replacement_didn_t_remove c + 1,
                                     warned := True\<rparr>, did), nodelist')
                      else Some (Inl e))))"
  using assms by (subst process_nodes.simps) simp

lemma process_nodes_skip:
  assumes "\<not> is_candidate node \<or> node \<notin> set (apply_nodes fg)"
  shows "process_nodes build ops ((fg, c, did), node # rest) =
     process_nodes build ops ((fg, c, did), rest)"
  using assms by (subst process_nodes.simps) auto

lemma process_nodes_skip_all:
  assumes "\<forall>n \<in> set skipped. \<not> is_candidate n \<or> n \<notin> set (apply_nodes fg)"
  shows "process_nodes build ops ((fg, c, did), skipped @ rest) =
     process_nodes build ops ((fg, c, did), rest)"
  using assms
proof (induction skipped)
  case Nil
  then show ?case by simp
next
  case (Cons n skipped)
  have "process_nodes build ops ((fg, c, did), n # (skipped @ rest)) =
      process_nodes build ops ((fg, c, did), skipped @ rest)"
    using Cons.prems by (intro process_nodes_skip) simp
  with Cons show ?case by simp
qed

lemma is_candidate_iff:
  "is_candidate node \<longleftrightarrow>
     (\<exists>sop ip ins. owner node = Some (Apply (Elemwise sop ip) ins) \<and>
        sop \<in> {Add, Sub, Neg, Mul})"
proof (cases "owner node")
  case None
  then show ?thesis by (simp add: is_candidate_def)
next
  case (Some n)
  obtain p ins where n: "n = Apply p ins" by (cases n) auto
  show ?thesis
    by (cases p) (auto simp: is_candidate_def Some n)
qed

text \<open>
  Claim C7. \<^verbatim>\<open>GemmOptimizer.apply\<close> returns exactly when, after some number of passes
  that each made a replacement, a pass makes none, and a pass sets \<^verbatim>\<open>did_something\<close>
  exactly when it has raised the count of replacements. A pass goes over the nodes in
  the reverse of the topological order: it starts at the last node of that order that is
  a candidate still in the graph. The candidates are the \<^verbatim>\<open>Elemwise\<close> nodes of \<^verbatim>\<open>Add\<close>,
  \<^verbatim>\<open>Sub\<close>, \<^verbatim>\<open>Neg\<close> and \<^verbatim>\<open>Mul\<close>; a node that is no candidate or is no longer in the graph
  is passed over, and so is a candidate for which no rewrite is found. After a replacement
  that succeeds the pass goes on, with the count of replacements raised and
  \<^verbatim>\<open>did_something\<close> set, over the rest of the list and the nodes that the replacement
  imported.
\<close>

theorem main_loop_terminates_iff:
  "(main_loop build ops s = Some (Inr (fg', c')) \<longleftrightarrow>
      (\<exists>n fg c. after_passes build ops n s = Some (fg, c) \<and>
                one_pass build ops (fg, c) = Some (Inr (fg', c', False)))) \<and>
   (one_pass build ops (fgs, cs) = Some (Inr (fge, ce, did)) \<longrightarrow>
      (did \<longleftrightarrow> nb_replacement cs < nb_replacement ce)) \<and>
   one_pass build ops (fgs, cs) =
     process_nodes build ops
       ((fgs, cs\<lparr>nb_iter := nb_iter cs + 1\<rparr>, False), rev (io_toposort ops fgs)) \<and>
   (io_toposort ops fgs = earlier @ last_node # later \<and>
    (\<forall>n \<in> set later. \<not> is_candidate n \<or> n \<notin> set (apply_nodes fgs)) \<longrightarrow>
      one_pass build ops (fgs, cs) =
        process_nodes build ops
          ((fgs, cs\<lparr>nb_iter := nb_iter cs + 1\<rparr>, False), last_node # rev earlier)) \<and>
   (is_candidate node \<longleftrightarrow>
      (\<exists>sop ip ins. owner node = Some (Apply (Elemwise sop ip) ins) \<and>
         sop \<in> {Add, Sub, Neg, Mul})) \<and>
   process_nodes build ops ((fgn, cn, d), []) = Some (Inr (fgn, cn, d)) \<and>
   (\<not> is_candidate node \<or> node \<notin> set (apply_nodes fgn) \<longrightarrow>
      process_nodes build ops ((fgn, cn, d), node # rest) =
        process_nodes build ops ((fgn, cn, d), rest)) \<and>
   (is_candidate node \<and> node \<in> set (apply_nodes fgn) \<and> build fgn node = Inr None \<longrightarrow>
      process_nodes build ops ((fgn, cn, d), node # rest) =
        process_nodes build ops ((fgn, cn, d), rest)) \<and>
   (is_candidate node \<and> node \<in> set (apply_nodes fgn) \<and>
    build fgn node = Inr (Some ([v], old)) \<and>
    replace_all_validate_remove ops fgn [(node, v)] [old] = (None, fgr, imported) \<longrightarrow>
      process_nodes build ops ((fgn, cn, d), node # rest) =
        process_nodes build ops
          ((fgr, cn\<lparr>nb_replacement := nb_replacement cn + 1\<rparr>, True),
           rest @ filter (\<lambda>new_node. new_node \<noteq> node) imported))"
proof (intro conjI impI)
  show "main_loop build ops s = Some (Inr (fg', c')) \<longleftrightarrow>
      (\<exists>n fg c. after_passes build ops n s = Some (fg, c) \<and>
                one_pass build ops (fg, c) = Some (Inr (fg', c', False)))"
    using main_loop_sound main_loop_complete by blast
next
  assume "one_pass build ops (fgs, cs) = Some (Inr (fge, ce, did))"
  then show "did \<longleftrightarrow> nb_replacement cs < nb_replacement ce"
    by (rule one_pass_did)
next
  show "one_pass build ops (fgs, cs) =
     process_nodes build ops
       ((fgs, cs\<lparr>nb_iter := nb_iter cs + 1\<rparr>, False), rev (io_toposort ops fgs))"
    by (simp add: one_pass_def)
next
  assume a: "io_toposort ops fgs = earlier @ last_node # later \<and>
    (\<forall>n \<in> set later. \<not> is_candidate n \<or> n \<notin> set (apply_nodes fgs))"
  then have "\<forall>n \<in> set (rev later). \<not> is_candidate n \<or> n \<notin> set (apply_nodes fgs)"
    by simp
  from process_nodes_skip_all [OF this, of build ops _ False "last_node # rev earlier"] a
  show "one_pass build ops (fgs, cs) =
        process_nodes build ops
          ((fgs, cs\<lparr>nb_iter := nb_iter cs + 1\<rparr>, False), last_node # rev earlier)"
    by (simp add: one_pass_def)
next
  show "is_candidate node \<longleftrightarrow>
      (\<exists>sop ip ins. owner node = Some (Apply (Elemwise sop ip) ins) \<and>
         sop \<in> {Add, Sub, Neg, Mul})"
    by (rule is_candidate_iff)
next
  show "process_nodes build ops ((fgn, cn, d), []) = Some (Inr (fgn, cn, d))"
    by (subst process_nodes.simps) simp
next
  assume "\<not> is_candidate node \<or> node \<notin> set (apply_nodes fgn)"
  then show "process_nodes build ops ((fgn, cn, d), node # rest) =
        process_nodes build ops ((fgn, cn, d), rest)"
    by (rule process_nodes_skip)
next
  assume "is_candidate node \<and> node \<in> set (apply_nodes fgn) \<and> build fgn node = Inr None"
  then show "process_nodes build ops ((fgn, cn, d), node # rest) =
        process_nodes build ops ((fgn, cn, d), rest)"
    by (simp add: process_nodes_step)
next
  assume "is_candidate node \<and> node \<in> set (apply_nodes fgn) \<and>
    build fgn node = Inr (Some ([v], old)) \<and>
    replace_all_validate_remove ops fgn [(node, v)] [old] = (None, fgr, imported)"
  then show "process_nodes build ops ((fgn, cn, d), node # rest) =
        process_nodes build ops
          ((fgr, cn\<lparr>nb_replacement := nb_replacement cn + 1\<rparr>, True),
           rest @ filter (\<lambda>new_node. new_node \<noteq> node) imported)"
    by (simp add: process_nodes_step)
qed

lemma candidates:
  "is_candidate var_out" "is_candidate var_aD" "is_candidate var_bZ"
  "\<not> is_candidate var_alpha2" "\<not> is_candidate var_beta2" "\<not> is_candidate var_dot"
  "\<not> is_candidate var_gemm"
  by (simp_all add: is_candidate_def sample_vars var_gemm_def add_def mul_def gemm_no_inplace_def)

lemma sample_distinct:
  "var_aD \<noteq> var_gemm" "var_bZ \<noteq> var_gemm" "var_out \<noteq> var_gemm" "var_gemm \<noteq> var_out"
  "var_aD \<noteq> var_out" "var_bZ \<noteq> var_out" "var_bZ \<noteq> var_aD"
  "var_out \<noteq> var_aD" "var_out \<noteq> var_bZ" "var_aD \<noteq> var_bZ"
  "var_dot \<noteq> var_aD" "var_dot \<noteq> var_bZ" "var_dot \<noteq> var_out"
  by (simp_all add: sample_vars var_gemm_def)

lemma sample_nodes: "apply_nodes sample_fgraph = [var_dot, var_beta2, var_alpha2, var_bZ, var_aD, var_out]"
  by (simp add: sample_fgraph_def)

lemma from_node2_no_rewrite:
  "gemm_from_node2 env (sample_fgraph\<lparr>apply_nodes := nodes\<rparr>) var_bZ = Inr None"
proof -
  have "gemm_canonicalize env (sample_fgraph\<lparr>apply_nodes := nodes\<rparr>) var_bZ (Lit 1) [] 0 =
      Inr [Pair (SVar var_beta) var_Z]"
    by (simp add: gemm_canonicalize.simps sample_vars sample_fgraph_def is_TensorType_def
        ndim_def gemm_dtypes_def add_def sub_def neg_def mul_def is_DimShuffle_def
        is_real_matrix_def is_real_vector_def float_dtypes_def mul_scale_def scaled_def
        scale_eq_def Let_def)
  then show ?thesis
    by (simp add: gemm_from_node2_def)
qed

theorem main_loop_terminates_iff_witness:
  "one_pass (gemm_from_node2 sample_env) sample_ops (sample_fgraph, zero_counters) =
     process_nodes (gemm_from_node2 sample_env) sample_ops
       ((sample_fgraph, zero_counters\<lparr>nb_iter := 1\<rparr>, False),
        [var_out, var_aD, var_bZ, var_alpha2, var_beta2, var_dot]) \<and>
   process_nodes (gemm_from_node2 sample_env) sample_ops
       ((sample_fgraph, zero_counters\<lparr>nb_iter := 1\<rparr>, False),
        [var_out, var_aD, var_bZ, var_alpha2, var_beta2, var_dot]) =
     process_nodes (gemm_from_node2 sample_env) sample_ops
       ((sample_fgraph\<lparr>apply_nodes := [var_gemm]\<rparr>,
         zero_counters\<lparr>nb_iter := 1, nb_replacement := 1\<rparr>, True),
        [var_aD, var_bZ, var_alpha2, var_beta2, var_dot, var_gemm]) \<and>
   process_nodes (gemm_from_node2 sample_env) sample_ops
       ((sample_fgraph\<lparr>apply_nodes := [var_gemm]\<rparr>,
         zero_counters\<lparr>nb_iter := 1, nb_replacement := 1\<rparr>, True),
        [var_aD, var_bZ, var_alpha2, var_beta2, var_dot, var_gemm]) =
     Some (Inr (sample_fgraph\<lparr>apply_nodes := [var_gemm]\<rparr>,
                zero_counters\<lparr>nb_iter := 1, nb_replacement := 1\<rparr>, True)) \<and>
   is_candidate var_out \<and> \<not> is_candidate var_dot \<and>
   GemmOptimizer_apply sample_env sample_ops sample_fgraph =
     Some (Inr (sample_fgraph\<lparr>apply_nodes := [var_gemm]\<rparr>,
                zero_counters\<lparr>nb_iter := 2, nb_replacement := 1\<rparr>)) \<and>
   one_pass (gemm_from_node2 sample_env) sample_ops
       (sample_fgraph\<lparr>apply_nodes := [var_bZ, var_dot]\<rparr>, zero_counters) =
     process_nodes (gemm_from_node2 sample_env) sample_ops
       ((sample_fgraph\<lparr>apply_nodes := [var_bZ, var_dot]\<rparr>,
         zero_counters\<lparr>nb_iter := 1\<rparr>, False), [var_bZ]) \<and>
   GemmOptimizer_apply sample_env sample_ops (sample_fgraph\<lparr>apply_nodes := [var_bZ, var_dot]\<rparr>) =
     Some (Inr (sample_fgraph\<lparr>apply_nodes := [var_bZ, var_dot]\<rparr>,
                zero_counters\<lparr>nb_iter := 1\<rparr>))"
proof -
  let ?build = "gemm_from_node2 sample_env"
  let ?fg = "sample_fgraph\<lparr>apply_nodes := [var_gemm]\<rparr>"
  let ?c = "zero_counters\<lparr>nb_iter := 1, nb_replacement := 1\<rparr>"
  let ?c' = "zero_counters\<lparr>nb_iter := 2, nb_replacement := 1\<rparr>"
  note nil = main_loop_terminates_iff
      [where build = ?build and ops = sample_ops,
       THEN conjunct2, THEN conjunct2, THEN conjunct2, THEN conjunct2,
       THEN conjunct2, THEN conjunct1]
  note skip = main_loop_terminates_iff
      [where build = ?build and ops = sample_ops,
       THEN conjunct2, THEN conjunct2, THEN conjunct2, THEN conjunct2,
       THEN conjunct2, THEN conjunct2, THEN conjunct1, THEN mp]
  have b: "?build sample_fgraph var_out = Inr (Some ([var_gemm], var_dot))"
    by (rule from_node2_sample)
       (simp_all add: sample_env_def sample_upcast_def var_alpha_def var_beta_def dscalar_def)
  have c1: "is_candidate var_out"
    using main_loop_terminates_iff
      [where node = var_out,
       THEN conjunct2, THEN conjunct2, THEN conjunct2, THEN conjunct2, THEN conjunct1]
    by (simp add: sample_vars add_def)
  have c2: "\<not> is_candidate var_dot"
    using main_loop_terminates_iff
      [where node = var_dot,
       THEN conjunct2, THEN conjunct2, THEN conjunct2, THEN conjunct2, THEN conjunct1]
    by (simp add: sample_vars)
  have s1: "one_pass ?build sample_ops (sample_fgraph, zero_counters) =
      process_nodes ?build sample_ops
        ((sample_fgraph, zero_counters\<lparr>nb_iter := 1\<rparr>, False),
         [var_out, var_aD, var_bZ, var_alpha2, var_beta2, var_dot])"
    using main_loop_terminates_iff
      [where build = ?build and ops = sample_ops and fgs = sample_fgraph
         and cs = zero_counters,
       THEN conjunct2, THEN conjunct2, THEN conjunct1]
    by (simp add: sample_ops_def sample_nodes zero_counters_def)
  have s2: "process_nodes ?build sample_ops
        ((sample_fgraph, zero_counters\<lparr>nb_iter := 1\<rparr>, False),
         [var_out, var_aD, var_bZ, var_alpha2, var_beta2, var_dot]) =
      process_nodes ?build sample_ops
        ((?fg, ?c, True), [var_aD, var_bZ, var_alpha2, var_beta2, var_dot, var_gemm])"
    using main_loop_terminates_iff
      [where build = ?build and ops = sample_ops and node = var_out and fgn = sample_fgraph
         and cn = "zero_counters\<lparr>nb_iter := 1\<rparr>" and d = False
         and rest = "[var_aD, var_bZ, var_alpha2, var_beta2, var_dot]"
         and v = var_gemm and old = var_dot and fgr = ?fg and imported = "[var_gemm]",
       THEN conjunct2, THEN conjunct2, THEN conjunct2, THEN conjunct2,
       THEN conjunct2, THEN conjunct2, THEN conjunct2, THEN conjunct2]
    by (simp add: c1 b sample_nodes sample_ops_def sample_distinct zero_counters_def)
  have out: "\<not> is_candidate n \<or> n \<notin> set (apply_nodes ?fg)"
    if "n \<in> {var_aD, var_bZ, var_alpha2, var_beta2, var_dot, var_gemm}" for n
    using that by (auto simp: candidates sample_distinct sample_distinct [symmetric])
  have s3: "process_nodes ?build sample_ops
        ((?fg, cx, dx), [var_aD, var_bZ, var_alpha2, var_beta2, var_dot, var_gemm]) =
      Some (Inr (?fg, cx, dx))" for cx dx
    by (simp add: skip [OF out] nil)
  have s4: "process_nodes ?build sample_ops ((?fg, cx, dx), [var_gemm]) =
      Some (Inr (?fg, cx, dx))" for cx dx
    by (simp add: skip [OF out] nil)
  have p1: "one_pass ?build sample_ops (sample_fgraph, zero_counters) =
      Some (Inr (?fg, ?c, True))"
    by (simp only: s1 s2 s3)
  have o2: "one_pass ?build sample_ops (?fg, ?c) =
      process_nodes ?build sample_ops
        ((?fg, ?c\<lparr>nb_iter := nb_iter ?c + 1\<rparr>, False), rev (io_toposort sample_ops ?fg))"
    by (rule main_loop_terminates_iff
      [where build = ?build and ops = sample_ops and fgs = ?fg and cs = ?c,
       THEN conjunct2, THEN conjunct2, THEN conjunct1])
  have l2: "rev (io_toposort sample_ops ?fg) = [var_gemm]"
    by (simp add: sample_ops_def)
  have c2': "?c\<lparr>nb_iter := nb_iter ?c + 1\<rparr> = ?c'"
    by (simp add: zero_counters_def)
  have p2: "one_pass ?build sample_ops (?fg, ?c) = Some (Inr (?fg, ?c', False))"
    by (simp only: o2 l2 c2' s4)
  from p1 have a: "after_passes ?build sample_ops 1 (sample_fgraph, zero_counters) =
      Some (?fg, ?c)"
    by simp
  have "main_loop ?build sample_ops (sample_fgraph, zero_counters) = Some (Inr (?fg, ?c'))"
  proof (rule main_loop_terminates_iff
        [where build = ?build and ops = sample_ops and s = "(sample_fgraph, zero_counters)"
           and fg' = ?fg and c' = ?c',
         THEN conjunct1, THEN iffD2])
    from a p2 show "\<exists>n fg c.
        after_passes ?build sample_ops n (sample_fgraph, zero_counters) = Some (fg, c) \<and>
        one_pass ?build sample_ops (fg, c) = Some (Inr (?fg, ?c', False))"
      by blast
  qed
  then have m: "GemmOptimizer_apply sample_env sample_ops sample_fgraph =
      Some (Inr (?fg, ?c'))"
    by (simp add: GemmOptimizer_apply_def)
  let ?g = "sample_fgraph\<lparr>apply_nodes := [var_bZ, var_dot]\<rparr>"
  let ?k = "zero_counters\<lparr>nb_iter := 1\<rparr>"
  have k: "zero_counters\<lparr>nb_iter := nb_iter zero_counters + 1\<rparr> = ?k"
    by (simp add: zero_counters_def)
  have h: "io_toposort sample_ops ?g = [] @ var_bZ # [var_dot] \<and>
      (\<forall>n \<in> set [var_dot]. \<not> is_candidate n \<or> n \<notin> set (apply_nodes ?g))"
    by (simp add: sample_ops_def c2)
  have t1: "one_pass ?build sample_ops (?g, zero_counters) =
      process_nodes ?build sample_ops ((?g, ?k, False), [var_bZ])"
    using main_loop_terminates_iff
      [where build = ?build and ops = sample_ops and fgs = ?g and cs = zero_counters
         and earlier = "[]" and last_node = var_bZ and later = "[var_dot]",
       THEN conjunct2, THEN conjunct2, THEN conjunct2, THEN conjunct1, THEN mp, OF h]
    by (simp only: k rev.simps)
  have t2: "process_nodes ?build sample_ops ((?g, ?k, False), [var_bZ]) =
      process_nodes ?build sample_ops ((?g, ?k, False), [])"
    using main_loop_terminates_iff
      [where build = ?build and node = var_bZ and fgn = ?g,
       THEN conjunct2, THEN conjunct2, THEN conjunct2, THEN conjunct2,
       THEN conjunct2, THEN conjunct2, THEN conjunct2, THEN conjunct1]
    by (simp add: candidates from_node2_no_rewrite)
  have t3: "one_pass ?build sample_ops (?g, zero_counters) = Some (Inr (?g, ?k, False))"
    by (simp only: t1 t2 nil)
  have "main_loop ?build sample_ops (?g, zero_counters) = Some (Inr (?g, ?k))"
  proof (rule main_loop_terminates_iff
        [where build = ?build and ops = sample_ops and s = "(?g, zero_counters)"
           and fg' = ?g and c' = ?k,
         THEN conjunct1, THEN iffD2])
    have "after_passes ?build sample_ops 0 (?g, zero_counters) = Some (?g, zero_counters)"
      by simp
    with t3 show "\<exists>n fg c.
        after_passes ?build sample_ops n (?g, zero_counters) = Some (fg, c) \<and>
        one_pass ?build sample_ops (fg, c) = Some (Inr (?g, ?k, False))"
      by blast
  qed
  then have m': "GemmOptimizer_apply sample_env sample_ops ?g = Some (Inr (?g, ?k))"
    by (simp add: GemmOptimizer_apply_def)
  show ?thesis
    by (intro conjI) (rule s1, rule s2, rule s3, rule c1, rule c2, rule m, rule t1, rule m')
qed

text \<open>
  Claim C6. In a pass, an \<^verbatim>\<open>InconsistencyError\<close> raised while building the candidate
  of a node is counted in \<^verbatim>\<open>nb_inconsistency_make\<close>, an \<^verbatim>\<open>InconsistencyError\<close> raised by
  the replacement in \<^verbatim>\<open>nb_inconsistency_replace\<close>, a \<^verbatim>\<open>ReplacementDidNotRemoveError\<close>
  raised by the replacement in \<^verbatim>\<open>nb_replacement_didn_t_remove\<close> (and \<^verbatim>\<open>warned\<close> is
  set); each time the pass goes on with the rest of the node list. Neither of the two
  errors leaves the loop when building a candidate raises no
  \<^verbatim>\<open>ReplacementDidNotRemoveError\<close>; and neither leaves \<^verbatim>\<open>GemmOptimizer.apply\<close> when
  the dtype rules of the scalar operators and \<^verbatim>\<open>cast\<close> raise none.
\<close>

theorem GemmOptimizer_catches_errors:
  "(is_candidate node \<and> node \<in> set (apply_nodes fg) \<and> build fg node = Inl InconsistencyError \<longrightarrow>
      process_nodes build ops ((fg, c, did), node # rest) =
        process_nodes build ops
          ((fg, c\<lparr>nb_inconsistency_make := nb_inconsistency_make c + 1\<rparr>, did), rest)) \<and>
   (is_candidate node \<and> node \<in> set (apply_nodes fg) \<and> build fg node = Inr (Some ([v], old)) \<and>
    replace_all_validate_remove ops fg [(node, v)] [old] = (Some InconsistencyError, fg', imported) \<longrightarrow>
      process_nodes build ops ((fg, c, did), node # rest) =
        process_nodes build ops
          ((fg', c\<lparr>nb_inconsistency_replace := nb_inconsistency_replace c + 1\<rparr>, did),
           rest @ filter (\<lambda>new_node. new_node \<noteq> node) imported)) \<and>
   (is_candidate node \<and> node \<in> set (apply_nodes fg) \<and> build fg node = Inr (Some ([v], old)) \<and>
    replace_all_validate_remove ops fg [(node, v)] [old] =
      (Some ReplacementDidNotRemoveError, fg', imported) \<longrightarrow>
      process_nodes build ops ((fg, c, did), node # rest) =
        process_nodes build ops
          ((fg', c\<lparr>nb_replacement_didn_t_remove := nb_replacement_didn_t_remove c + 1,
                   warned := True\<rparr>, did),
           rest @ filter (\<lambda>new_node. new_node \<noteq> node) imported)) \<and>
   ((\<forall>fg node. build fg node \<noteq> Inl ReplacementDidNotRemoveError) \<longrightarrow>
      main_loop build ops s \<noteq> Some (Inl InconsistencyError) \<and>
      main_loop build ops s \<noteq> Some (Inl ReplacementDidNotRemoveError)) \<and>
   ((\<forall>sop ds. scalar_out env sop ds \<noteq> Inl ReplacementDidNotRemoveError) \<and>
    (\<forall>v d. cast env v d \<noteq> Inl ReplacementDidNotRemoveError) \<longrightarrow>
      GemmOptimizer_apply env ops fgraph \<noteq> Some (Inl InconsistencyError) \<and>
      GemmOptimizer_apply env ops fgraph \<noteq> Some (Inl ReplacementDidNotRemoveError))"
proof (intro conjI impI)
  assume "\<forall>fg node. build fg node \<noteq> Inl ReplacementDidNotRemoveError"
  then show "main_loop build ops s \<noteq> Some (Inl InconsistencyError)"
    "main_loop build ops s \<noteq> Some (Inl ReplacementDidNotRemoveError)"
    using main_loop_error [of build ops s] by blast+
next
  assume "(\<forall>sop ds. scalar_out env sop ds \<noteq> Inl ReplacementDidNotRemoveError) \<and>
    (\<forall>v d. cast env v d \<noteq> Inl ReplacementDidNotRemoveError)"
  then have "\<forall>fg node. gemm_from_node2 env fg node \<noteq> Inl ReplacementDidNotRemoveError"
    using gemm_from_node2_no_RDNR [of env] by blast
  then show "GemmOptimizer_apply env ops fgraph \<noteq> Some (Inl InconsistencyError)"
    "GemmOptimizer_apply env ops fgraph \<noteq> Some (Inl ReplacementDidNotRemoveError)"
    unfolding GemmOptimizer_apply_def
    using main_loop_error [of "gemm_from_node2 env" ops] by blast+
qed (simp_all add: process_nodes_step)

theorem GemmOptimizer_catches_errors_witness:
  "main_loop sample_build (raising_ops InconsistencyError) (sample_fgraph, zero_counters) =
     Some (Inr (sample_fgraph,
       zero_counters\<lparr>nb_iter := 1, nb_inconsistency_make := 1, nb_inconsistency_replace := 1\<rparr>)) \<and>
   main_loop sample_build (raising_ops ReplacementDidNotRemoveError) (sample_fgraph, zero_counters) =
     Some (Inr (sample_fgraph,
       zero_counters\<lparr>nb_iter := 1, nb_inconsistency_make := 1, nb_replacement_didn_t_remove := 1,
                      warned := True\<rparr>)) \<and>
   main_loop sample_build (raising_ops InconsistencyError) (sample_fgraph, zero_counters) \<noteq>
     Some (Inl InconsistencyError) \<and>
   main_loop sample_build (raising_ops ReplacementDidNotRemoveError) (sample_fgraph, zero_counters) \<noteq>
     Some (Inl ReplacementDidNotRemoveError) \<and>
   GemmOptimizer_apply sample_env (raising_ops InconsistencyError) sample_fgraph \<noteq>
     Some (Inl InconsistencyError) \<and>
   GemmOptimizer_apply sample_env (raising_ops ReplacementDidNotRemoveError) sample_fgraph \<noteq>
     Some (Inl ReplacementDidNotRemoveError)"
proof -
  have nb: "\<forall>fg node. sample_build fg node \<noteq> Inl ReplacementDidNotRemoveError"
    by (simp add: sample_build_def)
  have bd: "sample_build sample_fgraph var_out = Inr (Some ([var_gemm], var_dot))"
    "sample_build sample_fgraph var_aD = Inl InconsistencyError"
    "sample_build sample_fgraph var_bZ = Inr None"
    by (simp_all add: sample_build_def sample_distinct)
  have in_g: "var_out \<in> set (apply_nodes sample_fgraph)" "var_aD \<in> set (apply_nodes sample_fgraph)"
    by (simp_all add: sample_nodes)
  note step = GemmOptimizer_catches_errors
    [where build = sample_build and fg = sample_fgraph and fg' = sample_fgraph and imported = "[]"
       and v = var_gemm and old = var_dot]
  have tail: "process_nodes sample_build ops ((sample_fgraph, c, False), [var_bZ, var_alpha2, var_beta2, var_dot]) =
      Some (Inr (sample_fgraph, c, False))" for ops c
    by (simp add: process_nodes.simps candidates sample_nodes bd)
  have mk: "process_nodes sample_build ops ((sample_fgraph, c, False), [var_aD, var_bZ, var_alpha2, var_beta2, var_dot]) =
      Some (Inr (sample_fgraph, c\<lparr>nb_inconsistency_make := nb_inconsistency_make c + 1\<rparr>, False))"
    for ops c
    using step [where node = var_aD and ops = ops and c = c and did = False
        and rest = "[var_bZ, var_alpha2, var_beta2, var_dot]"]
    by (simp add: candidates in_g bd tail)
  have p1: "one_pass sample_build (raising_ops InconsistencyError) (sample_fgraph, zero_counters) =
      Some (Inr (sample_fgraph,
        zero_counters\<lparr>nb_iter := 1, nb_inconsistency_make := 1, nb_inconsistency_replace := 1\<rparr>, False))"
    using step [where node = var_out and ops = "raising_ops InconsistencyError"
        and c = "zero_counters\<lparr>nb_iter := 1\<rparr>" and did = False
        and rest = "[var_aD, var_bZ, var_alpha2, var_beta2, var_dot]"]
    by (simp add: one_pass_def raising_ops_def sample_nodes candidates bd mk zero_counters_def)
  have p2: "one_pass sample_build (raising_ops ReplacementDidNotRemoveError) (sample_fgraph, zero_counters) =
      Some (Inr (sample_fgraph,
        zero_counters\<lparr>nb_iter := 1, nb_inconsistency_make := 1, nb_replacement_didn_t_remove := 1,
                       warned := True\<rparr>, False))"
    using step [where node = var_out and ops = "raising_ops ReplacementDidNotRemoveError"
        and c = "zero_counters\<lparr>nb_iter := 1\<rparr>" and did = False
        and rest = "[var_aD, var_bZ, var_alpha2, var_beta2, var_dot]"]
    by (simp add: one_pass_def raising_ops_def sample_nodes candidates bd mk zero_counters_def)
  have m1: "main_loop sample_build (raising_ops InconsistencyError) (sample_fgraph, zero_counters) =
     Some (Inr (sample_fgraph,
       zero_counters\<lparr>nb_iter := 1, nb_inconsistency_make := 1, nb_inconsistency_replace := 1\<rparr>))"
    by (subst main_loop.simps) (simp add: p1)
  have m2: "main_loop sample_build (raising_ops ReplacementDidNotRemoveError) (sample_fgraph, zero_counters) =
     Some (Inr (sample_fgraph,
       zero_counters\<lparr>nb_iter := 1, nb_inconsistency_make := 1, nb_replacement_didn_t_remove := 1,
                      warned := True\<rparr>))"
    by (subst main_loop.simps) (simp add: p2)
  have n1: "main_loop sample_build (raising_ops InconsistencyError) (sample_fgraph, zero_counters) \<noteq>
     Some (Inl InconsistencyError)"
    using GemmOptimizer_catches_errors
      [where build = sample_build and s = "(sample_fgraph, zero_counters)"
         and ops = "raising_ops InconsistencyError",
       THEN conjunct2, THEN conjunct2, THEN conjunct2, THEN conjunct1, THEN mp, OF nb]
    by (rule conjunct1)
  have n2: "main_loop sample_build (raising_ops ReplacementDidNotRemoveError)
      (sample_fgraph, zero_counters) \<noteq> Some (Inl ReplacementDidNotRemoveError)"
    using GemmOptimizer_catches_errors
      [where build = sample_build and s = "(sample_fgraph, zero_counters)"
         and ops = "raising_ops ReplacementDidNotRemoveError",
       THEN conjunct2, THEN conjunct2, THEN conjunct2, THEN conjunct1, THEN mp, OF nb]
    by (rule conjunct2)
  have ext: "(\<forall>sop ds. scalar_out sample_env sop ds \<noteq> Inl ReplacementDidNotRemoveError) \<and>
      (\<forall>v d. cast sample_env v d \<noteq> Inl ReplacementDidNotRemoveError)"
    by (simp add: sample_env_def split: list.split)
  have a1: "GemmOptimizer_apply sample_env (raising_ops InconsistencyError) sample_fgraph \<noteq>
      Some (Inl InconsistencyError)"
    using GemmOptimizer_catches_errors
      [where env = sample_env and ops = "raising_ops InconsistencyError"
         and fgraph = sample_fgraph,
       THEN conjunct2, THEN conjunct2, THEN conjunct2, THEN conjunct2, THEN mp, OF ext]
    by (rule conjunct1)
  have a2: "GemmOptimizer_apply sample_env (raising_ops ReplacementDidNotRemoveError)
      sample_fgraph \<noteq> Some (Inl ReplacementDidNotRemoveError)"
    using GemmOptimizer_catches_errors
      [where env = sample_env and ops = "raising_ops ReplacementDidNotRemoveError"
         and fgraph = sample_fgraph,
       THEN conjunct2, THEN conjunct2, THEN conjunct2, THEN conjunct2, THEN mp, OF ext]
    by (rule conjunct2)
  show ?thesis
    by (intro conjI) (rule m1, rule m2, rule n1, rule n2, rule a1, rule a2)
qed

end
